theory Spec2Isabelle
  imports Complex_Main "HOL-Library.Multiset"
begin

section \<open>The storefront of \<^verbatim>\<open>main.py\<close>: data model\<close>

text \<open>
  The program is a Flask application over a relational database (Flask-SQLAlchemy).
  Each request handler of \<^verbatim>\<open>main.py\<close> is embedded as a function from the state it reads
  (the database, the session, the request) to an \<open>outcome\<close>: the database and the session
  after the request, the messages passed to \<^verbatim>\<open>flash\<close>, and the response.

  A table is the list of its rows in the order the database returns them for a query
  with no \<^verbatim>\<open>ORDER BY\<close>. The tables \<^verbatim>\<open>Review\<close>, \<^verbatim>\<open>Order\<close>, \<^verbatim>\<open>OrderDetail\<close> and \<^verbatim>\<open>Discount\<close>
  are declared in the source but no handler reads or writes them; they are not modelled.
  Columns named \<^verbatim>\<open>id\<close>, \<^verbatim>\<open>name\<close>, \<^verbatim>\<open>description\<close> and \<^verbatim>\<open>created_at\<close> occur in several
  tables and carry the table's initial here (\<open>u_id\<close>, \<open>p_name\<close>, ...).
\<close>

type_synonym timestamp = int
  \<comment> \<open>a value of \<^verbatim>\<open>datetime.utcnow()\<close>, as a point on a time line\<close>

record user =
  u_id :: int
  username :: string
  email :: string
  password :: string
  first_name :: "string option"
  last_name :: "string option"
  is_admin :: bool
  loyalty_points :: int
  u_created_at :: timestamp
  last_login :: "timestamp option"

record category =
  c_id :: int
  c_name :: string
  c_description :: "string option"

text \<open>
  \<^verbatim>\<open>Product.price\<close> is a \<^verbatim>\<open>Float\<close> column; the model keeps the number it denotes and
  not its binary rounding, which no handler computes with.
\<close>

record product =
  p_id :: int
  p_name :: string
  p_description :: "string option"
  price :: real
  file_path :: "string option"
  thumbnail :: "string option"
  category_id :: "int option"
  is_active :: bool
  p_created_at :: timestamp

record database =
  user_table :: "user list"
  category_table :: "category list"
  product_table :: "product list"

text \<open>The Flask session: the keys \<^verbatim>\<open>'user_id'\<close> and \<^verbatim>\<open>'cart'\<close>, each present or not.\<close>

record session =
  user_id :: "int option"
  cart :: "int list option"

datatype http_method = GET | POST

type_synonym form = "string \<rightharpoonup> string"
  \<comment> \<open>\<^verbatim>\<open>request.form\<close>: \<^verbatim>\<open>request.form.get(k)\<close> is \<open>form k\<close>, \<open>None\<close> for a field not sent\<close>

text \<open>The object \<^verbatim>\<open>Query.paginate\<close> returns (Flask-SQLAlchemy's \<^verbatim>\<open>Pagination\<close>).\<close>

record 'a pagination =
  items :: "'a list"
  page :: int
  per_page :: nat
  total :: nat

text \<open>
  What \<^verbatim>\<open>render_template\<close> is given: the template and its context. Rendering itself
  (Jinja, the context processors) is outside the model.
\<close>

datatype template =
    Index_html "product list" "category list"
  | Products_html "product pagination" string
  | Product_detail_html product "product list"
  | Login_html
  | Register_html
  | Admin_dashboard_html
  | Admin_products_html "product list"
  | Admin_add_product_html "category list"

text \<open>
  A response: \<^verbatim>\<open>redirect(url_for(name))\<close> is \<open>Redirect name\<close>; \<^verbatim>\<open>abort(404)\<close>, raised by
  \<^verbatim>\<open>get_or_404\<close> and \<^verbatim>\<open>paginate\<close>, ends in the 404 handler (\<open>Not_found\<close>); an exception
  that no handler catches ends in the 500 handler (\<open>Server_error\<close>).
\<close>

datatype response =
    Redirect string
  | Render_template template
  | Not_found
  | Server_error

record outcome =
  new_db :: database
  new_session :: session
  flashed :: "(string \<times> string) list"
  resp :: response

subsection \<open>The strings of the source\<close>

text \<open>
  The user-visible strings of \<^verbatim>\<open>main.py\<close> are Arabic; each is given by its UTF-8 bytes.
\<close>

definition title_category_prefix :: string where
  \<comment> \<open>f"... {category.name}" before the category's name (line 128)\<close>
  "title_category_prefix = map char_of
     [217::nat, 133, 217, 134, 216, 170, 216, 172, 216, 167, 216, 170, 32]"

definition title_all_products :: string where
  \<comment> \<open>line 131\<close>
  "title_all_products = map char_of
     [216::nat, 172, 217, 133, 217, 138, 216, 185, 32, 216, 167, 217, 132, 217, 133, 217,
      134, 216, 170, 216, 172, 216, 167, 216, 170]"

definition msg_invalid_credentials :: string where
  \<comment> \<open>login, line 160: email or password is incorrect\<close>
  "msg_invalid_credentials = map char_of
     [216::nat, 167, 217, 132, 216, 168, 216, 177, 217, 138, 216, 175, 32, 216, 167, 217,
      132, 216, 165, 217, 132, 217, 131, 216, 170, 216, 177, 217, 136, 217, 134, 217, 138,
      32, 216, 163, 217, 136, 32, 217, 131, 217, 132, 217, 133, 216, 169, 32, 216, 167,
      217, 132, 217, 133, 216, 177, 217, 136, 216, 177, 32, 216, 186, 217, 138, 216, 177,
      32, 216, 181, 216, 173, 217, 138, 216, 173, 216, 169]"

definition msg_password_mismatch :: string where
  \<comment> \<open>register, line 175: the passwords do not match\<close>
  "msg_password_mismatch = map char_of
     [217::nat, 131, 217, 132, 217, 133, 216, 167, 216, 170, 32, 216, 167, 217, 132, 217,
      133, 216, 177, 217, 136, 216, 177, 32, 216, 186, 217, 138, 216, 177, 32, 217, 133,
      216, 170, 216, 183, 216, 167, 216, 168, 217, 130, 216, 169]"

definition msg_already_used :: string where
  \<comment> \<open>register, line 180: username or email already in use\<close>
  "msg_already_used = map char_of
     [216::nat, 167, 216, 179, 217, 133, 32, 216, 167, 217, 132, 217, 133, 216, 179, 216,
      170, 216, 174, 216, 175, 217, 133, 32, 216, 163, 217, 136, 32, 216, 167, 217, 132,
      216, 168, 216, 177, 217, 138, 216, 175, 32, 216, 167, 217, 132, 216, 165, 217, 132,
      217, 131, 216, 170, 216, 177, 217, 136, 217, 134, 217, 138, 32, 217, 133, 216, 179,
      216, 170, 216, 174, 216, 175, 217, 133, 32, 216, 168, 216, 167, 217, 132, 217, 129,
      216, 185, 217, 132]"

definition msg_account_created :: string where
  \<comment> \<open>register, line 194: account created, you can log in now\<close>
  "msg_account_created = map char_of
     [216::nat, 170, 217, 133, 32, 216, 165, 217, 134, 216, 180, 216, 167, 216, 161, 32,
      216, 167, 217, 132, 216, 173, 216, 179, 216, 167, 216, 168, 32, 216, 168, 217, 134,
      216, 172, 216, 167, 216, 173, 33, 32, 217, 138, 217, 133, 217, 131, 217, 134, 217,
      131, 32, 216, 167, 217, 132, 216, 162, 217, 134, 32, 216, 170, 216, 179, 216, 172,
      217, 138, 217, 132, 32, 216, 167, 217, 132, 216, 175, 216, 174, 217, 136, 217, 132]"

definition msg_not_authorized :: string where
  \<comment> \<open>admin routes, lines 212, 224, 237: you are not allowed to access this page\<close>
  "msg_not_authorized = map char_of
     [216::nat, 186, 217, 138, 216, 177, 32, 217, 133, 216, 181, 216, 177, 216, 173, 32,
      217, 132, 217, 131, 32, 216, 168, 216, 167, 217, 132, 217, 136, 216, 181, 217, 136,
      217, 132, 32, 216, 165, 217, 132, 217, 137, 32, 217, 135, 216, 176, 217, 135, 32,
      216, 167, 217, 132, 216, 181, 217, 129, 216, 173, 216, 169]"

definition msg_product_added :: string where
  \<comment> \<open>admin_add_product, line 258: product added\<close>
  "msg_product_added = map char_of
     [216::nat, 170, 217, 133, 32, 216, 165, 216, 182, 216, 167, 217, 129, 216, 169, 32,
      216, 167, 217, 132, 217, 133, 217, 134, 216, 170, 216, 172, 32, 216, 168, 217, 134,
      216, 172, 216, 167, 216, 173]"

section \<open>Library calls\<close>

text \<open>
  \<^verbatim>\<open>Model.query.get(i)\<close>, \<^verbatim>\<open>Query.first()\<close> and \<^verbatim>\<open>get_or_404\<close> read the first row that
  satisfies the condition; \<open>find\<close> is that read, \<open>None\<close> where Python has \<^verbatim>\<open>None\<close>.

  The database is SQLite unless \<^verbatim>\<open>DATABASE_URL\<close> says otherwise. Its driver binds a
  Python \<^verbatim>\<open>int\<close> as a signed 64-bit integer and raises \<^verbatim>\<open>OverflowError\<close> for any other;
  no handler catches it. The integers that a request supplies (\<^verbatim>\<open>product_id\<close>, the
  \<^verbatim>\<open>category\<close> and \<^verbatim>\<open>page\<close> arguments) are unbounded, so every statement that binds one
  has that error path. Integers read from a row are ones the database holds.
\<close>

definition fits_int64 :: "int \<Rightarrow> bool" where
  "fits_int64 n \<longleftrightarrow> - (2 ^ 63) \<le> n \<and> n < 2 ^ 63"

text \<open>
  \<^verbatim>\<open>Query.paginate(page=page, per_page=12)\<close> (with its default \<^verbatim>\<open>error_out=True\<close>) aborts
  with 404 when the page number is below 1; then it runs the query with
  \<^verbatim>\<open>LIMIT per_page OFFSET (page - 1) * per_page\<close>, which raises when the offset or an
  integer that the query's filter binds (\<open>bound\<close>) does not fit; then it aborts with 404
  when the page holds no row and is not page 1; otherwise it returns the rows of the page.
\<close>

datatype abort = Abort_404 | Overflow_error

definition paginate :: "int list \<Rightarrow> 'a list \<Rightarrow> int \<Rightarrow> nat \<Rightarrow> abort + 'a pagination" where
  "paginate bound rows n per =
     (if n < 1 then Inl Abort_404
      else if \<not> list_all fits_int64 (bound @ [(n - 1) * int per]) then Inl Overflow_error
      else
        let its = take per (drop ((nat n - 1) * per) rows)
        in if its = [] \<and> n \<noteq> 1 then Inl Abort_404
           else Inr \<lparr>items = its, page = n, per_page = per, total = length rows\<rparr>)"

text \<open>
  An integer primary key that the \<^verbatim>\<open>INSERT\<close> does not give is chosen by the database:
  one more than the largest key of the table, 1 for an empty table.
\<close>

definition next_id :: "int list \<Rightarrow> int" where
  "next_id ids = fold max ids 0 + 1"

text \<open>
  The password functions of \<^verbatim>\<open>werkzeug.security\<close> are parameters of the handlers that
  call them, applied to exactly what the source passes (a form field that was not sent
  is \<open>None\<close>); the result \<open>None\<close> stands for a raised exception.
  \<^item> a \<open>password_hasher\<close> is \<^verbatim>\<open>generate_password_hash\<close> for the salt drawn in one call;
  \<^item> a \<open>password_checker\<close> is \<^verbatim>\<open>check_password_hash\<close>: whether a stored value is a hash
    of a password.
\<close>

type_synonym password_hasher = "string option \<Rightarrow> string option"
type_synonym password_checker = "string \<Rightarrow> string option \<Rightarrow> bool option"

text \<open>
  Modelled from the spec: \<^verbatim>\<open>generate_password_hash\<close> and \<^verbatim>\<open>check_password_hash\<close> of
  \<^verbatim>\<open>werkzeug.security\<close>, which \<^verbatim>\<open>main.py\<close> imports and which are not among the
  repository's files. The spec calls the stored password salted and hashed, has login
  verify the hash, and names the hash round-trip property. The model keeps the library's
  format and control flow and is symbolic in the digest:
  \<^item> a hash is the text \<^verbatim>\<open>method$salt$digest\<close>; \<^verbatim>\<open>check_password_hash\<close> splits the stored
    value at its first two \<^verbatim>\<open>$\<close> (\<^verbatim>\<open>pwhash.split("$", 2)\<close>), answers \<^verbatim>\<open>False\<close> when there
    are fewer, and otherwise computes the digest of the submitted password for the
    method and salt it read and compares it with the third part;
  \<^item> the digest of a method, a salt and a password is represented by the three
    themselves, so that two digests agree only when all three agree; nothing is said
    about how a digest is computed;
  \<^item> both functions raise on a password that is \<^verbatim>\<open>None\<close>, and the digest raises on a
    method the installed library does not know (\<open>valid_method\<close>, left open).
\<close>

definition digest :: "string \<Rightarrow> string \<Rightarrow> string \<Rightarrow> string" where
  "digest method salt pw = method @ ''$'' @ salt @ ''$'' @ pw"

definition generate_password_hash :: "(string \<Rightarrow> bool) \<Rightarrow> string \<Rightarrow> string \<Rightarrow> password_hasher" where
  "generate_password_hash valid_method method salt pw_arg =
     (case pw_arg of
        None \<Rightarrow> None
      | Some pw \<Rightarrow>
          if valid_method method then Some (method @ ''$'' @ salt @ ''$'' @ digest method salt pw)
          else None)"

definition split_hash :: "string \<Rightarrow> (string \<times> string \<times> string) option" where
  "split_hash pwhash =
     (case dropWhile (\<lambda>c. c \<noteq> CHR ''$'') pwhash of
        [] \<Rightarrow> None
      | _ # rest \<Rightarrow>
          (case dropWhile (\<lambda>c. c \<noteq> CHR ''$'') rest of
             [] \<Rightarrow> None
           | _ # hashval \<Rightarrow>
               Some (takeWhile (\<lambda>c. c \<noteq> CHR ''$'') pwhash,
                     takeWhile (\<lambda>c. c \<noteq> CHR ''$'') rest, hashval)))"

definition check_password_hash :: "(string \<Rightarrow> bool) \<Rightarrow> password_checker" where
  "check_password_hash valid_method pwhash pw_arg =
     (case split_hash pwhash of
        None \<Rightarrow> Some False
      | Some (method, salt, hashval) \<Rightarrow>
          (case pw_arg of
             None \<Rightarrow> None
           | Some pw \<Rightarrow>
               if valid_method method then Some (digest method salt pw = hashval)
               else None))"

text \<open>
  Likewise the conversion of a bound text to the column's type when a \<^verbatim>\<open>Product\<close> row
  is written (\<^verbatim>\<open>price\<close> is \<^verbatim>\<open>Float\<close>, \<^verbatim>\<open>category_id\<close> is \<^verbatim>\<open>Integer\<close>, and the handler
  passes the form's strings): \<open>None\<close> stands for a statement that fails.
\<close>

type_synonym bind_float = "string \<Rightarrow> real option"
type_synonym bind_integer = "string \<Rightarrow> int option"

text \<open>An unhandled exception: the transaction is not committed, nothing was flashed.\<close>

definition server_error :: "database \<Rightarrow> session \<Rightarrow> outcome" where
  "server_error db sess =
     \<lparr>new_db = db, new_session = sess, flashed = [], resp = Server_error\<rparr>"

definition not_found :: "database \<Rightarrow> session \<Rightarrow> outcome" where
  "not_found db sess =
     \<lparr>new_db = db, new_session = sess, flashed = [], resp = Not_found\<rparr>"

section \<open>Writing rows\<close>

text \<open>
  \<^verbatim>\<open>db.session.add(new_user); db.session.commit()\<close> in \<^verbatim>\<open>register\<close>. The constraints are
  the schema's: \<^verbatim>\<open>username\<close>, \<^verbatim>\<open>email\<close> and \<^verbatim>\<open>password\<close> are \<^verbatim>\<open>nullable=False\<close>,
  \<^verbatim>\<open>username\<close> and \<^verbatim>\<open>email\<close> are \<^verbatim>\<open>unique=True\<close>. \<open>None\<close> is the \<^verbatim>\<open>IntegrityError\<close>.
  The column defaults fill \<^verbatim>\<open>is_admin\<close>, \<^verbatim>\<open>loyalty_points\<close> and \<^verbatim>\<open>created_at\<close>.
\<close>

definition insert_user ::
  "timestamp \<Rightarrow> database \<Rightarrow> string option \<Rightarrow> string option \<Rightarrow> string option \<Rightarrow>
   string option \<Rightarrow> string option \<Rightarrow> database option" where
  "insert_user utcnow db un em pwhash fname lname =
     (case (un, em, pwhash) of
        (Some u, Some e, Some h) \<Rightarrow>
          if u \<in> set (map username (user_table db)) \<or> e \<in> set (map email (user_table db))
          then None
          else Some (db\<lparr>user_table := user_table db @
                 [\<lparr>u_id = next_id (map u_id (user_table db)), username = u, email = e,
                   password = h, first_name = fname, last_name = lname, is_admin = False,
                   loyalty_points = 0, u_created_at = utcnow, last_login = None\<rparr>]\<rparr>)
      | _ \<Rightarrow> None)"

text \<open>
  \<^verbatim>\<open>db.session.add(new_product); db.session.commit()\<close> in \<^verbatim>\<open>admin_add_product\<close>:
  \<^verbatim>\<open>name\<close> and \<^verbatim>\<open>price\<close> are \<^verbatim>\<open>nullable=False\<close>; \<^verbatim>\<open>category_id\<close> may be null and no
  lookup of the category is made; \<^verbatim>\<open>file_path\<close> and \<^verbatim>\<open>thumbnail\<close> are not given.
\<close>

definition insert_product ::
  "bind_float \<Rightarrow> bind_integer \<Rightarrow> timestamp \<Rightarrow> database \<Rightarrow> string option \<Rightarrow>
   string option \<Rightarrow> string option \<Rightarrow> string option \<Rightarrow> bool \<Rightarrow> database option" where
  "insert_product to_float to_int utcnow db nm descr pr cat act =
     (case (nm, pr) of
        (Some n, Some ptxt) \<Rightarrow>
          (case to_float ptxt of
             None \<Rightarrow> None
           | Some r \<Rightarrow>
               (case (case cat of None \<Rightarrow> Some None
                               | Some ctxt \<Rightarrow> map_option Some (to_int ctxt)) of
                  None \<Rightarrow> None
                | Some c \<Rightarrow>
                    Some (db\<lparr>product_table := product_table db @
                      [\<lparr>p_id = next_id (map p_id (product_table db)), p_name = n,
                        p_description = descr, price = r, file_path = None,
                        thumbnail = None, category_id = c, is_active = act,
                        p_created_at = utcnow\<rparr>]\<rparr>)))
      | _ \<Rightarrow> None)"

section \<open>The request handlers\<close>

subsection \<open>Catalog\<close>

text \<open>
  \<^verbatim>\<open>index\<close> (route \<^verbatim>\<open>/\<close>). \<^verbatim>\<open>order_by(Product.created_at.desc())\<close> is a sort on the
  negated timestamp; rows with equal timestamps keep their table order, one of the
  orders SQL allows.
\<close>

definition index :: "database \<Rightarrow> session \<Rightarrow> outcome" where
  "index db sess =
     (let featured_products =
            take 8 (sort_key (\<lambda>p. - p_created_at p) (filter is_active (product_table db)));
          cats = category_table db
      in \<lparr>new_db = db, new_session = sess, flashed = [],
          resp = Render_template (Index_html featured_products cats)\<rparr>)"

text \<open>
  \<^verbatim>\<open>products\<close> (route \<^verbatim>\<open>/products\<close>). \<open>cat_arg\<close> is
  \<^verbatim>\<open>request.args.get('category', type=int)\<close> and \<open>page_arg\<close> is
  \<^verbatim>\<open>request.args.get('page', 1, type=int)\<close>. The test \<^verbatim>\<open>if category_id:\<close> is false for
  \<^verbatim>\<open>None\<close> and for \<^verbatim>\<open>0\<close>. In the first branch \<^verbatim>\<open>paginate\<close> runs before \<^verbatim>\<open>get_or_404\<close>, and
  its query binds the category.
\<close>

definition products :: "database \<Rightarrow> session \<Rightarrow> int option \<Rightarrow> int \<Rightarrow> outcome" where
  "products db sess cat_arg page_arg =
     (if cat_arg \<noteq> None \<and> cat_arg \<noteq> Some 0 then
        (case paginate (case cat_arg of None \<Rightarrow> [] | Some k \<Rightarrow> [k])
                (filter (\<lambda>p. is_active p \<and> category_id p = cat_arg) (product_table db))
                page_arg 12 of
           Inl Abort_404 \<Rightarrow> not_found db sess
         | Inl Overflow_error \<Rightarrow> server_error db sess
         | Inr prods \<Rightarrow>
             (case find (\<lambda>c. Some (c_id c) = cat_arg) (category_table db) of
                None \<Rightarrow> not_found db sess
              | Some cat \<Rightarrow>
                  \<lparr>new_db = db, new_session = sess, flashed = [],
                   resp = Render_template
                     (Products_html prods (title_category_prefix @ c_name cat))\<rparr>))
      else
        (case paginate [] (filter is_active (product_table db)) page_arg 12 of
           Inl Abort_404 \<Rightarrow> not_found db sess
         | Inl Overflow_error \<Rightarrow> server_error db sess
         | Inr prods \<Rightarrow>
             \<lparr>new_db = db, new_session = sess, flashed = [],
              resp = Render_template (Products_html prods title_all_products)\<rparr>))"

text \<open>
  \<^verbatim>\<open>product_detail\<close> (route \<^verbatim>\<open>/product/<int:product_id>\<close>). \<^verbatim>\<open>get_or_404\<close> binds the id of
  the URL. SQLAlchemy writes \<^verbatim>\<open>Product.category_id == None\<close> as \<^verbatim>\<open>IS NULL\<close>, so the
  comparison of the two categories is equality of the optional values.
\<close>

definition product_detail :: "database \<Rightarrow> session \<Rightarrow> int \<Rightarrow> outcome" where
  "product_detail db sess product_id =
     (if \<not> fits_int64 product_id then server_error db sess
      else
        case find (\<lambda>p. p_id p = product_id) (product_table db) of
          None \<Rightarrow> not_found db sess
        | Some prd \<Rightarrow>
            (let related_products =
                   take 4 (filter (\<lambda>q. category_id q = category_id prd \<and>
                                        p_id q \<noteq> p_id prd \<and> is_active q)
                             (product_table db))
             in \<lparr>new_db = db, new_session = sess, flashed = [],
                 resp = Render_template (Product_detail_html prd related_products)\<rparr>))"

subsection \<open>Identity and session\<close>

text \<open>
  \<^verbatim>\<open>login\<close> (route \<^verbatim>\<open>/login\<close>). \<^verbatim>\<open>filter_by(email=email)\<close> with \<^verbatim>\<open>email\<close> \<^verbatim>\<open>None\<close> is
  \<^verbatim>\<open>email IS NULL\<close>, which no row satisfies (the column is not nullable). The
  \<^verbatim>\<open>and\<close> of the source calls \<^verbatim>\<open>check_password_hash\<close> only when a user was found.
\<close>

definition login ::
  "password_checker \<Rightarrow> timestamp \<Rightarrow> database \<Rightarrow> session \<Rightarrow> http_method \<Rightarrow> form \<Rightarrow> outcome" where
  "login check_pw utcnow db sess method frm =
     (let em = frm ''email'';
          pw = frm ''password'';
          failed = \<lparr>new_db = db, new_session = sess,
                    flashed = [(msg_invalid_credentials, ''danger'')],
                    resp = Render_template Login_html\<rparr>
      in if method = POST then
           (case find (\<lambda>u. Some (email u) = em) (user_table db) of
              None \<Rightarrow> failed
            | Some usr \<Rightarrow>
                (case check_pw (password usr) pw of
                   None \<Rightarrow> server_error db sess
                 | Some False \<Rightarrow> failed
                 | Some True \<Rightarrow>
                     \<lparr>new_db = db\<lparr>user_table :=
                          map (\<lambda>v. if u_id v = u_id usr
                                    then v\<lparr>last_login := Some utcnow\<rparr> else v)
                            (user_table db)\<rparr>,
                      new_session = sess\<lparr>user_id := Some (u_id usr)\<rparr>,
                      flashed = [],
                      resp = (if is_admin usr then Redirect ''admin_dashboard''
                              else Redirect ''index'')\<rparr>))
         else \<lparr>new_db = db, new_session = sess, flashed = [],
               resp = Render_template Login_html\<rparr>)"

text \<open>
  \<^verbatim>\<open>register\<close> (route \<^verbatim>\<open>/register\<close>). \<^verbatim>\<open>password != confirm_password\<close> compares the two
  optional fields. In the filter a field that is \<^verbatim>\<open>None\<close> becomes \<^verbatim>\<open>IS NULL\<close> and
  matches no row. \<^verbatim>\<open>generate_password_hash(password)\<close> is evaluated when the \<^verbatim>\<open>User\<close>
  is built, before the row is written.
\<close>

definition register ::
  "password_hasher \<Rightarrow> timestamp \<Rightarrow> database \<Rightarrow> session \<Rightarrow> http_method \<Rightarrow> form \<Rightarrow>
   outcome" where
  "register gen_hash utcnow db sess method frm =
     (let un = frm ''username'';
          em = frm ''email'';
          pw = frm ''password'';
          confirm_password = frm ''confirm_password'';
          fname = frm ''first_name'';
          lname = frm ''last_name''
      in if method = POST then
           (if pw \<noteq> confirm_password then
              \<lparr>new_db = db, new_session = sess,
               flashed = [(msg_password_mismatch, ''danger'')],
               resp = Redirect ''register''\<rparr>
            else
              (case find (\<lambda>u. Some (username u) = un \<or> Some (email u) = em)
                      (user_table db) of
                 Some existing_user \<Rightarrow>
                   \<lparr>new_db = db, new_session = sess,
                    flashed = [(msg_already_used, ''danger'')],
                    resp = Redirect ''register''\<rparr>
               | None \<Rightarrow>
                   (case gen_hash pw of
                      None \<Rightarrow> server_error db sess
                    | Some h \<Rightarrow>
                        (case insert_user utcnow db un em (Some h) fname lname of
                           None \<Rightarrow> server_error db sess
                         | Some db' \<Rightarrow>
                             \<lparr>new_db = db', new_session = sess,
                              flashed = [(msg_account_created, ''success'')],
                              resp = Redirect ''login''\<rparr>))))
         else \<lparr>new_db = db, new_session = sess, flashed = [],
               resp = Render_template Register_html\<rparr>)"

text \<open>\<^verbatim>\<open>logout\<close> (route \<^verbatim>\<open>/logout\<close>).\<close>

definition logout :: "database \<Rightarrow> session \<Rightarrow> outcome" where
  "logout db sess =
     \<lparr>new_db = db, new_session = sess\<lparr>user_id := None, cart := None\<rparr>, flashed = [],
      resp = Redirect ''index''\<rparr>"

subsection \<open>Admin\<close>

text \<open>
  The three admin routes repeat the same two tests, as the source does:
  \<^verbatim>\<open>'user_id' not in session\<close>, then \<^verbatim>\<open>not user or not user.is_admin\<close> for
  \<^verbatim>\<open>User.query.get(session['user_id'])\<close>.
\<close>

definition admin_dashboard :: "database \<Rightarrow> session \<Rightarrow> outcome" where
  "admin_dashboard db sess =
     (case user_id sess of
        None \<Rightarrow> \<lparr>new_db = db, new_session = sess, flashed = [], resp = Redirect ''login''\<rparr>
      | Some uid \<Rightarrow>
          (case find (\<lambda>u. u_id u = uid) (user_table db) of
             None \<Rightarrow>
               \<lparr>new_db = db, new_session = sess,
                flashed = [(msg_not_authorized, ''danger'')], resp = Redirect ''index''\<rparr>
           | Some usr \<Rightarrow>
               if \<not> is_admin usr then
                 \<lparr>new_db = db, new_session = sess,
                  flashed = [(msg_not_authorized, ''danger'')], resp = Redirect ''index''\<rparr>
               else
                 \<lparr>new_db = db, new_session = sess, flashed = [],
                  resp = Render_template Admin_dashboard_html\<rparr>))"

definition admin_products :: "database \<Rightarrow> session \<Rightarrow> outcome" where
  "admin_products db sess =
     (case user_id sess of
        None \<Rightarrow> \<lparr>new_db = db, new_session = sess, flashed = [], resp = Redirect ''login''\<rparr>
      | Some uid \<Rightarrow>
          (case find (\<lambda>u. u_id u = uid) (user_table db) of
             None \<Rightarrow>
               \<lparr>new_db = db, new_session = sess,
                flashed = [(msg_not_authorized, ''danger'')], resp = Redirect ''index''\<rparr>
           | Some usr \<Rightarrow>
               if \<not> is_admin usr then
                 \<lparr>new_db = db, new_session = sess,
                  flashed = [(msg_not_authorized, ''danger'')], resp = Redirect ''index''\<rparr>
               else
                 \<lparr>new_db = db, new_session = sess, flashed = [],
                  resp = Render_template (Admin_products_html (product_table db))\<rparr>))"

text \<open>
  \<^verbatim>\<open>admin_add_product\<close> (route \<^verbatim>\<open>/admin/add_product\<close>).
  \<^verbatim>\<open>True if request.form.get('is_active') else False\<close> is true for a field that was sent
  and is not the empty string.
\<close>

definition admin_add_product ::
  "bind_float \<Rightarrow> bind_integer \<Rightarrow> timestamp \<Rightarrow> database \<Rightarrow> session \<Rightarrow> http_method \<Rightarrow>
   form \<Rightarrow> outcome" where
  "admin_add_product to_float to_int utcnow db sess method frm =
     (case user_id sess of
        None \<Rightarrow> \<lparr>new_db = db, new_session = sess, flashed = [], resp = Redirect ''login''\<rparr>
      | Some uid \<Rightarrow>
          (case find (\<lambda>u. u_id u = uid) (user_table db) of
             None \<Rightarrow>
               \<lparr>new_db = db, new_session = sess,
                flashed = [(msg_not_authorized, ''danger'')], resp = Redirect ''index''\<rparr>
           | Some usr \<Rightarrow>
               if \<not> is_admin usr then
                 \<lparr>new_db = db, new_session = sess,
                  flashed = [(msg_not_authorized, ''danger'')], resp = Redirect ''index''\<rparr>
               else if method = POST then
                 (let nm = frm ''name'';
                      descr = frm ''description'';
                      pr = frm ''price'';
                      cat = frm ''category_id'';
                      act = (case frm ''is_active'' of None \<Rightarrow> False | Some s \<Rightarrow> s \<noteq> [])
                  in case insert_product to_float to_int utcnow db nm descr pr cat act of
                       None \<Rightarrow> server_error db sess
                     | Some db' \<Rightarrow>
                         \<lparr>new_db = db', new_session = sess,
                          flashed = [(msg_product_added, ''success'')],
                          resp = Redirect ''admin_products''\<rparr>)
               else
                 \<lparr>new_db = db, new_session = sess, flashed = [],
                  resp = Render_template (Admin_add_product_html (category_table db))\<rparr>))"


section \<open>The constraints of the schema\<close>

text \<open>
  The key constraints that \<^verbatim>\<open>main.py\<close> declares on the three tables: \<^verbatim>\<open>id\<close> is the
  \<^verbatim>\<open>primary_key\<close> of each, and \<^verbatim>\<open>User.username\<close> and \<^verbatim>\<open>User.email\<close> are \<^verbatim>\<open>unique=True\<close>.
\<close>

definition schema_ok :: "database \<Rightarrow> bool" where
  "schema_ok db \<longleftrightarrow>
     distinct (map u_id (user_table db)) \<and>
     distinct (map username (user_table db)) \<and>
     distinct (map email (user_table db)) \<and>
     distinct (map c_id (category_table db)) \<and>
     distinct (map p_id (product_table db))"


section \<open>Example states\<close>

text \<open>
  Concrete states on which the theorems below are instantiated. The stored passwords are
  hashes for the method \<^verbatim>\<open>scrypt\<close>, which \<open>known_method\<close> takes as the one method known.
\<close>

definition known_method :: "string \<Rightarrow> bool" where
  "known_method m \<longleftrightarrow> m = ''scrypt''"

definition alice :: user where
  "alice = \<lparr>u_id = 1, username = ''alice'', email = ''a@x.com'',
            password = ''scrypt$s1$scrypt$s1$pw1'',
            first_name = None, last_name = None, is_admin = False, loyalty_points = 0,
            u_created_at = 10, last_login = None\<rparr>"

definition site_admin :: user where
  "site_admin = \<lparr>u_id = 2, username = ''admin'', email = ''admin@example.com'',
                 password = ''scrypt$s0$scrypt$s0$admin123'', first_name = Some ''Admin'',
                 last_name = Some ''User'', is_admin = True, loyalty_points = 0,
                 u_created_at = 0, last_login = None\<rparr>"

text \<open>A user whose stored value is the password itself, and a database that holds it.\<close>

definition carol :: user where
  "carol = \<lparr>u_id = 3, username = ''carol'', email = ''c@x.com'', password = ''pw3'',
            first_name = None, last_name = None, is_admin = False, loyalty_points = 0,
            u_created_at = 20, last_login = None\<rparr>"

definition leaky_shop :: database where
  "leaky_shop = \<lparr>user_table = [alice, carol], category_table = [], product_table = []\<rparr>"

definition anonymous :: session where
  "anonymous = \<lparr>user_id = None, cart = None\<rparr>"


definition admin_session :: session where
  "admin_session = \<lparr>user_id = Some 2, cart = None\<rparr>"

definition empty_shop :: database where
  "empty_shop = \<lparr>user_table = [alice, site_admin], category_table = [], product_table = []\<rparr>"

definition games :: category where
  "games = \<lparr>c_id = 1, c_name = ''games'', c_description = None\<rparr>"

definition card_a :: product where
  "card_a = \<lparr>p_id = 1, p_name = ''card a'', p_description = None, price = 5,
             file_path = None, thumbnail = None, category_id = Some 1, is_active = True,
             p_created_at = 100\<rparr>"

definition card_b :: product where
  "card_b = \<lparr>p_id = 2, p_name = ''card b'', p_description = None, price = 10,
             file_path = None, thumbnail = None, category_id = Some 1, is_active = False,
             p_created_at = 200\<rparr>"

definition card_c :: product where
  "card_c = \<lparr>p_id = 3, p_name = ''card c'', p_description = None, price = 20,
             file_path = None, thumbnail = None, category_id = None, is_active = True,
             p_created_at = 300\<rparr>"

definition card_d :: product where
  "card_d = \<lparr>p_id = 4, p_name = ''card d'', p_description = None, price = 25,
             file_path = None, thumbnail = None, category_id = Some 1, is_active = True,
             p_created_at = 50\<rparr>"

definition shop :: database where
  "shop = \<lparr>user_table = [alice, site_admin], category_table = [games],
           product_table = [card_a, card_b, card_c, card_d]\<rparr>"

definition card_e :: product where
  "card_e = \<lparr>p_id = 5, p_name = ''card e'', p_description = None, price = - 5,
             file_path = None, thumbnail = None, category_id = None, is_active = False,
             p_created_at = 7\<rparr>"


section \<open>Properties of the handlers\<close>

subsection \<open>The password hash\<close>

lemma split_hash_parts:
  assumes "split_hash pwhash = Some (method, salt, hashval)"
  shows "pwhash = method @ ''$'' @ salt @ ''$'' @ hashval"
proof -
  let ?P = "\<lambda>c. c \<noteq> CHR ''$''"
  from assms obtain x rest where r1: "dropWhile ?P pwhash = x # rest"
    by (auto simp: split_hash_def split: list.splits)
  with assms obtain y where r2: "dropWhile ?P rest = y # hashval"
    and m: "method = takeWhile ?P pwhash" and s: "salt = takeWhile ?P rest"
    by (auto simp: split_hash_def split: list.splits)
  from r1 have x: "x = CHR ''$''"
    using hd_dropWhile [of ?P pwhash] by auto
  from r2 have y: "y = CHR ''$''"
    using hd_dropWhile [of ?P rest] by auto
  have "pwhash = takeWhile ?P pwhash @ dropWhile ?P pwhash" by simp
  also have "\<dots> = method @ x # rest" by (simp only: r1 m)
  also have "rest = takeWhile ?P rest @ dropWhile ?P rest" by simp
  also have "\<dots> = salt @ y # hashval" by (simp only: r2 s)
  finally show ?thesis by (simp add: x y)
qed

lemma until_dollar:
  assumes "CHR ''$'' \<notin> set xs"
  shows "dropWhile (\<lambda>c. c \<noteq> CHR ''$'') (xs @ CHR ''$'' # ys) = CHR ''$'' # ys"
    and "takeWhile (\<lambda>c. c \<noteq> CHR ''$'') (xs @ CHR ''$'' # ys) = xs"
  using assms by (induction xs) auto

lemma split_hash_generated:
  assumes "CHR ''$'' \<notin> set method" "CHR ''$'' \<notin> set salt"
  shows "split_hash (method @ ''$'' @ salt @ ''$'' @ hashval) = Some (method, salt, hashval)"
  by (simp add: split_hash_def until_dollar [OF assms(1)] until_dollar [OF assms(2)])

lemma raw_password_never_verifies:
  "check_password_hash valid_method pw (Some pw) \<noteq> Some True"
proof
  assume v: "check_password_hash valid_method pw (Some pw) = Some True"
  then obtain meth salt hashval where sp: "split_hash pw = Some (meth, salt, hashval)"
    and d: "digest meth salt pw = hashval"
    by (auto simp: check_password_hash_def split: option.splits if_splits)
  from split_hash_parts [OF sp] have "length hashval < length pw"
    by (auto dest: arg_cong [where f = length])
  moreover from d have "length pw \<le> length hashval"
    by (auto simp: digest_def)
  ultimately show False by simp
qed

lemma generated_hash_is_not_raw:
  "generate_password_hash valid_method method salt (Some pw) = Some h \<Longrightarrow> h \<noteq> pw"
  by (auto simp: generate_password_hash_def digest_def split: if_splits
      dest: arg_cong [where f = length])

lemma hash_round_trip:
  assumes "CHR ''$'' \<notin> set method" "CHR ''$'' \<notin> set salt"
    and "generate_password_hash valid_method method salt (Some pw) = Some h"
  shows "check_password_hash valid_method h (Some q) = Some (q = pw)"
proof -
  from assms(3) have known: "valid_method method"
    and h: "h = method @ ''$'' @ salt @ ''$'' @ digest method salt pw"
    by (simp_all add: generate_password_hash_def split: if_splits)
  show ?thesis
    unfolding h check_password_hash_def split_hash_generated [OF assms(1,2)]
    using known by (auto simp: digest_def)
qed

lemma check_without_password:
  assumes "generate_password_hash valid_method method salt (Some pw) = Some h"
    "CHR ''$'' \<notin> set method" "CHR ''$'' \<notin> set salt"
  shows "check_password_hash valid_method h None = None"
proof -
  from assms(1) have h: "h = method @ ''$'' @ salt @ ''$'' @ digest method salt pw"
    by (simp add: generate_password_hash_def split: if_splits)
  show ?thesis
    unfolding h check_password_hash_def split_hash_generated [OF assms(2,3)] by simp
qed


subsection \<open>Reading a row by a unique column\<close>

lemma find_by_key:
  "distinct (map f xs) \<Longrightarrow> x \<in> set xs \<Longrightarrow> find (\<lambda>y. f y = f x) xs = Some x"
  by (induction xs) (auto simp: image_iff)

lemma find_by_email:
  assumes "distinct (map email us)" "usr \<in> set us" "Some (email usr) = em"
  shows "find (\<lambda>u. Some (email u) = em) us = Some usr"
proof -
  have eq: "(\<lambda>u. Some (email u) = em) = (\<lambda>u. email u = email usr)"
    using assms(3) by auto
  show ?thesis unfolding eq by (rule find_by_key [OF assms(1,2)])
qed

lemma login_cases:
  "login check_pw utcnow db sess POST frm =
     (case find (\<lambda>u. Some (email u) = frm ''email'') (user_table db) of
        None \<Rightarrow> \<lparr>new_db = db, new_session = sess,
                    flashed = [(msg_invalid_credentials, ''danger'')],
                    resp = Render_template Login_html\<rparr>
      | Some usr \<Rightarrow>
         (case check_pw (password usr) (frm ''password'') of
            None \<Rightarrow> server_error db sess
          | Some False \<Rightarrow> \<lparr>new_db = db, new_session = sess,
                    flashed = [(msg_invalid_credentials, ''danger'')],
                    resp = Render_template Login_html\<rparr>
          | Some True \<Rightarrow>
                     \<lparr>new_db = db\<lparr>user_table :=
                          map (\<lambda>v. if u_id v = u_id usr
                                    then v\<lparr>last_login := Some utcnow\<rparr> else v)
                            (user_table db)\<rparr>,
                      new_session = sess\<lparr>user_id := Some (u_id usr)\<rparr>,
                      flashed = [],
                      resp = (if is_admin usr then Redirect ''admin_dashboard''
                              else Redirect ''index'')\<rparr>))"
  by (simp add: login_def Let_def)


subsection \<open>Login\<close>

lemma login_post_general:
  assumes uniq: "distinct (map email (user_table db))"
  shows
    "(let out = login check_pw utcnow db sess POST frm;
          ok = (\<lambda>u. Some (email u) = frm ''email'' \<and>
                     check_pw (password u) (frm ''password'') = Some True)
      in ((resp out = Redirect ''admin_dashboard'' \<or> resp out = Redirect ''index'') \<longleftrightarrow>
            (\<exists>u \<in> set (user_table db). ok u))
       \<and> (user_id (new_session out) \<noteq> user_id sess \<longrightarrow> (\<exists>u \<in> set (user_table db). ok u))
       \<and> (\<forall>u \<in> set (user_table db). ok u \<longrightarrow>
             new_session out = sess\<lparr>user_id := Some (u_id u)\<rparr>
           \<and> new_db out = db\<lparr>user_table :=
                 map (\<lambda>v. if u_id v = u_id u then v\<lparr>last_login := Some utcnow\<rparr> else v)
                   (user_table db)\<rparr>
           \<and> u\<lparr>last_login := Some utcnow\<rparr> \<in> set (user_table (new_db out))
           \<and> resp out = (if is_admin u then Redirect ''admin_dashboard''
                          else Redirect ''index'')))"
proof -
  define out where "out = login check_pw utcnow db sess POST frm"
  define ok where "ok = (\<lambda>u::user. Some (email u) = frm ''email'' \<and>
                     check_pw (password u) (frm ''password'') = Some True)"
  define success where
    "success = (resp out = Redirect ''admin_dashboard'' \<or> resp out = Redirect ''index'')"
  have found: "find (\<lambda>u. Some (email u) = frm ''email'') (user_table db) = Some u"
    if "u \<in> set (user_table db)" "Some (email u) = frm ''email''" for u
    using find_by_email [OF uniq that] .
  have good: "out = \<lparr>new_db = db\<lparr>user_table :=
                 map (\<lambda>v. if u_id v = u_id u then v\<lparr>last_login := Some utcnow\<rparr> else v)
                   (user_table db)\<rparr>,
               new_session = sess\<lparr>user_id := Some (u_id u)\<rparr>, flashed = [],
               resp = (if is_admin u then Redirect ''admin_dashboard''
                       else Redirect ''index'')\<rparr>"
    if "u \<in> set (user_table db)" "ok u" for u
    using that found [of u] by (simp add: out_def ok_def login_cases)
  have bad: "\<not> success \<and> new_session out = sess \<and> new_db out = db"
    if "\<forall>u \<in> set (user_table db). \<not> ok u"
  proof (cases "find (\<lambda>u. Some (email u) = frm ''email'') (user_table db)")
    case None
    then show ?thesis by (simp add: success_def out_def login_cases)
  next
    case (Some usr)
    then have "usr \<in> set (user_table db)" "Some (email usr) = frm ''email''"
      by (auto simp: find_Some_iff)
    with that have "check_pw (password usr) (frm ''password'') \<noteq> Some True"
      by (auto simp: ok_def)
    with Some show ?thesis
      by (cases "check_pw (password usr) (frm ''password'')")
        (auto simp: success_def out_def login_cases server_error_def)
  qed
  have c1: "success \<longleftrightarrow> (\<exists>u \<in> set (user_table db). ok u)"
  proof
    assume success
    with bad show "\<exists>u \<in> set (user_table db). ok u" by blast
  next
    assume "\<exists>u \<in> set (user_table db). ok u"
    then obtain u where "u \<in> set (user_table db)" "ok u" by blast
    from good [OF this] show success by (simp add: success_def)
  qed
  have c2: "user_id (new_session out) \<noteq> user_id sess \<longrightarrow> (\<exists>u \<in> set (user_table db). ok u)"
    using bad by metis
  have c3: "new_session out = sess\<lparr>user_id := Some (u_id u)\<rparr>
           \<and> new_db out = db\<lparr>user_table :=
                 map (\<lambda>v. if u_id v = u_id u then v\<lparr>last_login := Some utcnow\<rparr> else v)
                   (user_table db)\<rparr>
           \<and> u\<lparr>last_login := Some utcnow\<rparr> \<in> set (user_table (new_db out))
           \<and> resp out = (if is_admin u then Redirect ''admin_dashboard''
                          else Redirect ''index'')"
    if u: "u \<in> set (user_table db)" "ok u" for u
  proof -
    have "(if u_id u = u_id u then u\<lparr>last_login := Some utcnow\<rparr> else u) \<in>
            (\<lambda>v. if u_id v = u_id u then v\<lparr>last_login := Some utcnow\<rparr> else v) `
              set (user_table db)"
      using u(1) by (rule imageI)
    then show ?thesis by (simp add: good [OF u])
  qed
  from c1 c2 c3 show ?thesis
    unfolding Let_def out_def [symmetric] ok_def [symmetric] success_def [symmetric]
    by (simp add: ok_def)
qed

lemma same_email_same_user:
  assumes "distinct (map email us)" "u \<in> set us" "v \<in> set us" "email u = email v"
  shows "u = v"
proof -
  from find_by_email [OF assms(1,2), of "Some (email u)"]
  have "find (\<lambda>w. Some (email w) = Some (email u)) us = Some u" by simp
  moreover from find_by_email [OF assms(1,3), of "Some (email u)"] assms(4)
  have "find (\<lambda>w. Some (email w) = Some (email u)) us = Some v" by simp
  ultimately show ?thesis by simp
qed

lemma login_known_user:
  assumes "distinct (map email (user_table db))" "u \<in> set (user_table db)"
    "Some (email u) = frm ''email''"
  shows "login check_pw utcnow db sess POST frm =
     (case check_pw (password u) (frm ''password'') of
        None \<Rightarrow> server_error db sess
      | Some False \<Rightarrow>
          \<lparr>new_db = db, new_session = sess,
           flashed = [(msg_invalid_credentials, ''danger'')],
           resp = Render_template Login_html\<rparr>
      | Some True \<Rightarrow>
          \<lparr>new_db = db\<lparr>user_table :=
               map (\<lambda>v. if u_id v = u_id u then v\<lparr>last_login := Some utcnow\<rparr> else v)
                 (user_table db)\<rparr>,
           new_session = sess\<lparr>user_id := Some (u_id u)\<rparr>,
           flashed = [],
           resp = (if is_admin u then Redirect ''admin_dashboard''
                   else Redirect ''index'')\<rparr>)"
  by (simp add: login_cases find_by_email [OF assms])

lemma login_raw_password:
  assumes uniq: "distinct (map email (user_table db))"
    and u: "u \<in> set (user_table db)" "Some (email u) = frm ''email''"
    and raw: "frm ''password'' = Some (password u)"
  shows "resp (login (check_password_hash valid_method) utcnow db sess POST frm) \<noteq>
           Redirect ''admin_dashboard'' \<and>
         resp (login (check_password_hash valid_method) utcnow db sess POST frm) \<noteq>
           Redirect ''index'' \<and>
         new_session (login (check_password_hash valid_method) utcnow db sess POST frm) = sess \<and>
         new_db (login (check_password_hash valid_method) utcnow db sess POST frm) = db"
proof (cases "check_password_hash valid_method (password u) (Some (password u))")
  case None
  then show ?thesis
    unfolding login_known_user [where db = db and u = u and frm = frm, OF uniq u] raw by (simp add: server_error_def)
next
  case (Some b)
  with raw_password_never_verifies [of valid_method "password u"] have "b = False" by simp
  with Some show ?thesis
    unfolding login_known_user [where db = db and u = u and frm = frm, OF uniq u] raw by simp
qed

lemma login_hashed_password:
  assumes uniq: "distinct (map email (user_table db))"
    and u: "u \<in> set (user_table db)" "Some (email u) = frm ''email''"
    and h: "generate_password_hash valid_method method salt (Some pw) = Some (password u)"
    and v: "CHR ''$'' \<notin> set method" "CHR ''$'' \<notin> set salt"
    and q: "frm ''password'' = Some q"
  shows "(resp (login (check_password_hash valid_method) utcnow db sess POST frm) =
            Redirect ''admin_dashboard'' \<or>
          resp (login (check_password_hash valid_method) utcnow db sess POST frm) =
            Redirect ''index'') \<longleftrightarrow> q = pw"
  unfolding login_known_user [where db = db and u = u and frm = frm, OF uniq u] q
    hash_round_trip [of "method" salt valid_method, OF v h]
  by (cases "q = pw") simp_all

lemma login_alice:
  "login (check_password_hash known_method) 99 leaky_shop anonymous POST
     [''email'' \<mapsto> ''a@x.com'', ''password'' \<mapsto> ''pw1''] =
   \<lparr>new_db = leaky_shop\<lparr>user_table := [alice\<lparr>last_login := Some 99\<rparr>, carol]\<rparr>,
    new_session = \<lparr>user_id = Some 1, cart = None\<rparr>, flashed = [],
    resp = Redirect ''index''\<rparr>"
  by (simp add: login_def check_password_hash_def split_hash_def digest_def known_method_def
      leaky_shop_def alice_def carol_def anonymous_def)

lemma login_carol_raw:
  "login (check_password_hash known_method) 99 leaky_shop anonymous POST
     [''email'' \<mapsto> ''c@x.com'', ''password'' \<mapsto> ''pw3''] =
   \<lparr>new_db = leaky_shop, new_session = anonymous,
    flashed = [(msg_invalid_credentials, ''danger'')], resp = Render_template Login_html\<rparr>"
  by (simp add: login_def check_password_hash_def split_hash_def digest_def known_method_def
      leaky_shop_def alice_def carol_def anonymous_def)

text \<open>
  Claim C3. Let the emails of the user table be pairwise distinct (the column is
  \<^verbatim>\<open>unique=True\<close>). Whatever the password check computes, a login POST succeeds, that
  is, answers with the redirect to the admin dashboard or to the home page, exactly when
  some user has the submitted email and the check returns \<^verbatim>\<open>True\<close> for that user's stored
  password field and the submitted password; the session's \<^verbatim>\<open>user_id\<close> changes in no
  other case. On success the session's \<^verbatim>\<open>user_id\<close> is that user's id, that user's
  \<^verbatim>\<open>last_login\<close> is the current time (every row with another id is as before), and the
  redirect goes to the admin dashboard when the user's admin flag is set and to the home
  page otherwise. With \<^verbatim>\<open>check_password_hash\<close> as the check, login never succeeds on a
  raw stored value: when the stored password field of the user with the submitted email
  is the submitted password itself, the answer is no success redirect and neither the
  session nor the database changes. The hash round trip: when that field is the hash
  \<^verbatim>\<open>generate_password_hash\<close> made of a password (no \<^verbatim>\<open>$\<close> in method or salt), the
  login succeeds exactly when the submitted password is that password.
\<close>

theorem login_post_correct:
  assumes uniq: "distinct (map email (user_table db))"
  shows
    "(let out = login check_pw utcnow db sess POST frm;
          ok = (\<lambda>u. Some (email u) = frm ''email'' \<and>
                     check_pw (password u) (frm ''password'') = Some True)
      in ((resp out = Redirect ''admin_dashboard'' \<or> resp out = Redirect ''index'') \<longleftrightarrow>
            (\<exists>u \<in> set (user_table db). ok u))
       \<and> (user_id (new_session out) \<noteq> user_id sess \<longrightarrow> (\<exists>u \<in> set (user_table db). ok u))
       \<and> (\<forall>u \<in> set (user_table db). ok u \<longrightarrow>
             new_session out = sess\<lparr>user_id := Some (u_id u)\<rparr>
           \<and> new_db out = db\<lparr>user_table :=
                 map (\<lambda>v. if u_id v = u_id u then v\<lparr>last_login := Some utcnow\<rparr> else v)
                   (user_table db)\<rparr>
           \<and> u\<lparr>last_login := Some utcnow\<rparr> \<in> set (user_table (new_db out))
           \<and> resp out = (if is_admin u then Redirect ''admin_dashboard''
                          else Redirect ''index'')))
     \<and> (\<forall>u \<in> set (user_table db).
           Some (email u) = frm ''email'' \<and> frm ''password'' = Some (password u) \<longrightarrow>
           resp (login (check_password_hash valid_method) utcnow db sess POST frm) \<noteq>
             Redirect ''admin_dashboard'' \<and>
           resp (login (check_password_hash valid_method) utcnow db sess POST frm) \<noteq>
             Redirect ''index'' \<and>
           new_session (login (check_password_hash valid_method) utcnow db sess POST frm) = sess \<and>
           new_db (login (check_password_hash valid_method) utcnow db sess POST frm) = db)
     \<and> (\<forall>u \<in> set (user_table db). \<forall>method salt pw q.
           Some (email u) = frm ''email'' \<and>
           generate_password_hash valid_method method salt (Some pw) = Some (password u) \<and>
           CHR ''$'' \<notin> set method \<and> CHR ''$'' \<notin> set salt \<and>
           frm ''password'' = Some q \<longrightarrow>
           ((resp (login (check_password_hash valid_method) utcnow db sess POST frm) =
               Redirect ''admin_dashboard'' \<or>
             resp (login (check_password_hash valid_method) utcnow db sess POST frm) =
               Redirect ''index'') \<longleftrightarrow> q = pw))"
proof -
  note general = login_post_general [OF uniq, of check_pw utcnow sess frm]
  have raw: "\<forall>u \<in> set (user_table db).
           Some (email u) = frm ''email'' \<and> frm ''password'' = Some (password u) \<longrightarrow>
           resp (login (check_password_hash valid_method) utcnow db sess POST frm) \<noteq>
             Redirect ''admin_dashboard'' \<and>
           resp (login (check_password_hash valid_method) utcnow db sess POST frm) \<noteq>
             Redirect ''index'' \<and>
           new_session (login (check_password_hash valid_method) utcnow db sess POST frm) = sess \<and>
           new_db (login (check_password_hash valid_method) utcnow db sess POST frm) = db"
    by (intro ballI impI, elim conjE) (rule login_raw_password [OF uniq])
  have hashed: "\<forall>u \<in> set (user_table db). \<forall>method salt pw q.
           Some (email u) = frm ''email'' \<and>
           generate_password_hash valid_method method salt (Some pw) = Some (password u) \<and>
           CHR ''$'' \<notin> set method \<and> CHR ''$'' \<notin> set salt \<and>
           frm ''password'' = Some q \<longrightarrow>
           ((resp (login (check_password_hash valid_method) utcnow db sess POST frm) =
               Redirect ''admin_dashboard'' \<or>
             resp (login (check_password_hash valid_method) utcnow db sess POST frm) =
               Redirect ''index'') \<longleftrightarrow> q = pw)"
    by (intro ballI allI impI, elim conjE) (rule login_hashed_password [OF uniq])
  from general raw hashed show ?thesis by (intro conjI)
qed

theorem login_post_correct_witness:
  "distinct (map email (user_table leaky_shop))
   \<and> login (check_password_hash known_method) 99 leaky_shop anonymous POST
        [''email'' \<mapsto> ''a@x.com'', ''password'' \<mapsto> ''pw1''] =
      \<lparr>new_db = leaky_shop\<lparr>user_table := [alice\<lparr>last_login := Some 99\<rparr>, carol]\<rparr>,
       new_session = \<lparr>user_id = Some 1, cart = None\<rparr>, flashed = [],
       resp = Redirect ''index''\<rparr>
   \<and> generate_password_hash known_method ''scrypt'' ''s1'' (Some ''pw1'') = Some (password alice)
   \<and> password carol = ''pw3''
   \<and> login (check_password_hash known_method) 99 leaky_shop anonymous POST
        [''email'' \<mapsto> ''c@x.com'', ''password'' \<mapsto> ''pw3''] =
      \<lparr>new_db = leaky_shop, new_session = anonymous,
       flashed = [(msg_invalid_credentials, ''danger'')], resp = Render_template Login_html\<rparr>"
proof -
  have d: "distinct (map email (user_table leaky_shop))"
    by (simp add: leaky_shop_def alice_def carol_def)
  have g: "generate_password_hash known_method ''scrypt'' ''s1'' (Some ''pw1'') = Some (password alice)"
    by (simp add: generate_password_hash_def digest_def known_method_def alice_def)
  have c: "password carol = ''pw3''" by (simp add: carol_def)
  have mem: "carol \<in> set (user_table leaky_shop)" by (simp add: leaky_shop_def)
  let ?frm = "[''email'' \<mapsto> ''c@x.com'', ''password'' \<mapsto> ''pw3'']"
  have f: "Some (email carol) = ?frm ''email'' \<and> ?frm ''password'' = Some (password carol)"
    by (simp add: carol_def)
  from login_post_correct [OF d, of check_pw 99 anonymous ?frm known_method]
  have "\<forall>u \<in> set (user_table leaky_shop).
           Some (email u) = ?frm ''email'' \<and> ?frm ''password'' = Some (password u) \<longrightarrow>
           resp (login (check_password_hash known_method) 99 leaky_shop anonymous POST ?frm) \<noteq>
             Redirect ''admin_dashboard'' \<and>
           resp (login (check_password_hash known_method) 99 leaky_shop anonymous POST ?frm) \<noteq>
             Redirect ''index'' \<and>
           new_session (login (check_password_hash known_method) 99 leaky_shop anonymous POST ?frm) =
             anonymous \<and>
           new_db (login (check_password_hash known_method) 99 leaky_shop anonymous POST ?frm) =
             leaky_shop" for check_pw
    by (rule conjunct1 [OF conjunct2])
  from this [rule_format, OF mem f]
  have "new_db (login (check_password_hash known_method) 99 leaky_shop anonymous POST ?frm) =
             leaky_shop"
    by (elim conjE)
  with d g c login_alice login_carol_raw show ?thesis by (intro conjI)
qed

text \<open>
  Claim C9. Take a login POST whose email belongs to no user, and a login POST whose
  email belongs to a user for whom the password check returns \<^verbatim>\<open>False\<close> on the
  submitted password field: a wrong password that was sent. Both have the same response,
  the re-rendered login page, and the same flashed message, the one invalid-credentials
  message; neither changes the database or the session. The password must have been
  sent: a POST without a password field is answered with the generic message when the
  email belongs to no user, and with a server error when it belongs to a user whose
  stored password is a hash, because \<^verbatim>\<open>check_password_hash\<close> raises on \<^verbatim>\<open>None\<close>; the
  two failures are then told apart.
\<close>

theorem login_failures_indistinguishable:
  assumes nouser: "\<forall>u \<in> set (user_table db). Some (email u) \<noteq> frm1 ''email''"
    and exists: "\<exists>u \<in> set (user_table db). Some (email u) = frm2 ''email''"
    and wrong: "\<forall>u \<in> set (user_table db). Some (email u) = frm2 ''email'' \<longrightarrow>
                  check_pw (password u) (frm2 ''password'') = Some False"
  shows "resp (login check_pw t1 db sess1 POST frm1) = resp (login check_pw t2 db sess2 POST frm2)
       \<and> flashed (login check_pw t1 db sess1 POST frm1) =
           flashed (login check_pw t2 db sess2 POST frm2)
       \<and> resp (login check_pw t1 db sess1 POST frm1) = Render_template Login_html
       \<and> flashed (login check_pw t1 db sess1 POST frm1) = [(msg_invalid_credentials, ''danger'')]
       \<and> new_db (login check_pw t1 db sess1 POST frm1) = db
       \<and> new_db (login check_pw t2 db sess2 POST frm2) = db
       \<and> new_session (login check_pw t1 db sess1 POST frm1) = sess1
       \<and> new_session (login check_pw t2 db sess2 POST frm2) = sess2"
proof -
  have n1: "find (\<lambda>u. Some (email u) = frm1 ''email'') (user_table db) = None"
    using nouser by (simp add: find_None_iff)
  obtain u where u: "find (\<lambda>u. Some (email u) = frm2 ''email'') (user_table db) = Some u"
    using exists by (cases "find (\<lambda>u. Some (email u) = frm2 ''email'') (user_table db)")
      (auto simp: find_None_iff)
  then have "u \<in> set (user_table db)" "Some (email u) = frm2 ''email''"
    by (auto simp: find_Some_iff)
  with wrong have w: "check_pw (password u) (frm2 ''password'') = Some False" by blast
  show ?thesis by (simp add: login_cases n1 u w)
qed

theorem login_failures_indistinguishable_witness:
  "resp (login (check_password_hash known_method) 5 empty_shop anonymous POST
           [''email'' \<mapsto> ''nobody@x.com'', ''password'' \<mapsto> ''pw1'']) =
   resp (login (check_password_hash known_method) 6 empty_shop anonymous POST
           [''email'' \<mapsto> ''a@x.com'', ''password'' \<mapsto> ''guess''])
   \<and> flashed (login (check_password_hash known_method) 5 empty_shop anonymous POST
           [''email'' \<mapsto> ''nobody@x.com'', ''password'' \<mapsto> ''pw1'']) =
     flashed (login (check_password_hash known_method) 6 empty_shop anonymous POST
           [''email'' \<mapsto> ''a@x.com'', ''password'' \<mapsto> ''guess''])
   \<and> find (\<lambda>u. email u = ''nobody@x.com'') (user_table empty_shop) = None
   \<and> find (\<lambda>u. email u = ''a@x.com'') (user_table empty_shop) = Some alice
   \<and> check_password_hash known_method (password alice) (Some ''guess'') = Some False"
  using login_failures_indistinguishable [of empty_shop
           "[''email'' \<mapsto> ''nobody@x.com'', ''password'' \<mapsto> ''pw1'']"
           "[''email'' \<mapsto> ''a@x.com'', ''password'' \<mapsto> ''guess'']"
           "check_password_hash known_method" 5 anonymous 6 anonymous]
  by (simp add: empty_shop_def alice_def site_admin_def check_password_hash_def split_hash_def
      digest_def known_method_def)

theorem login_missing_password_counterexample:
  "find (\<lambda>u. email u = ''nobody@x.com'') (user_table empty_shop) = None
   \<and> login (check_password_hash known_method) 5 empty_shop anonymous POST
        [''email'' \<mapsto> ''nobody@x.com''] =
      \<lparr>new_db = empty_shop, new_session = anonymous,
       flashed = [(msg_invalid_credentials, ''danger'')], resp = Render_template Login_html\<rparr>
   \<and> find (\<lambda>u. email u = ''a@x.com'') (user_table empty_shop) = Some alice
   \<and> login (check_password_hash known_method) 5 empty_shop anonymous POST
        [''email'' \<mapsto> ''a@x.com''] =
      \<lparr>new_db = empty_shop, new_session = anonymous, flashed = [], resp = Server_error\<rparr>"
  by (simp add: login_def check_password_hash_def split_hash_def digest_def known_method_def
      server_error_def empty_shop_def alice_def site_admin_def)


subsection \<open>The admin gate\<close>



subsection \<open>The home page\<close>

lemmas shop_defs = shop_def card_a_def card_b_def card_c_def card_d_def games_def
  alice_def site_admin_def


text \<open>
  Claim C7. For every database state the home page renders \<^verbatim>\<open>index.html\<close> with the
  whole category table and a list of featured products that: has 8 entries, or all the
  active products when there are fewer; consists of active rows of the product table,
  each taken at most as often as it occurs there; is ordered by creation time,
  latest first; and leaves out no active product created later than one it contains.
  The database and the session are unchanged.
\<close>

theorem index_featured:
  "\<exists>featured.
      index db sess =
        \<lparr>new_db = db, new_session = sess, flashed = [],
         resp = Render_template (Index_html featured (category_table db))\<rparr>
    \<and> length featured = min 8 (length (filter is_active (product_table db)))
    \<and> mset featured \<subseteq># mset (filter is_active (product_table db))
    \<and> (\<forall>p \<in> set featured. p \<in> set (product_table db) \<and> is_active p)
    \<and> sorted_wrt (\<lambda>p q. p_created_at p \<ge> p_created_at q) featured
    \<and> (\<forall>p \<in> set featured.
          \<forall>q \<in># mset (filter is_active (product_table db)) - mset featured.
            p_created_at q \<le> p_created_at p)"
proof -
  define act where "act = filter is_active (product_table db)"
  define s where "s = sort_key (\<lambda>p. - p_created_at p) act"
  define featured where "featured = take 8 s"
  have split: "s = featured @ drop 8 s"
    by (simp add: featured_def)
  have ms: "mset s = mset act"
    by (simp add: s_def)
  have "mset s = mset featured + mset (drop 8 s)"
    by (subst split) simp
  with ms have parts: "mset act = mset featured + mset (drop 8 s)"
    by simp
  have sorted_s: "sorted (map (\<lambda>p. - p_created_at p) s)"
    by (simp add: s_def)
  then have sorted_parts:
    "sorted (map (\<lambda>p. - p_created_at p) featured @ map (\<lambda>p. - p_created_at p) (drop 8 s))"
    by (subst (asm) split) simp
  have c0: "index db sess =
        \<lparr>new_db = db, new_session = sess, flashed = [],
         resp = Render_template (Index_html featured (category_table db))\<rparr>"
    by (simp add: index_def featured_def s_def act_def)
  have c1: "length featured = min 8 (length act)"
    by (simp add: featured_def s_def min.commute)
  have c2: "mset featured \<subseteq># mset act"
    using parts by simp
  have c3: "p \<in> set (product_table db) \<and> is_active p" if "p \<in> set featured" for p
  proof -
    from that have "p \<in> set s" by (auto simp: featured_def dest: in_set_takeD)
    then show ?thesis by (simp add: s_def act_def)
  qed
  have c4: "sorted_wrt (\<lambda>p q. p_created_at p \<ge> p_created_at q) featured"
    using sorted_parts by (simp add: sorted_append sorted_map)
  have c5: "p_created_at q \<le> p_created_at p"
    if "p \<in> set featured" "q \<in># mset act - mset featured" for p q
  proof -
    from that(2) parts have "q \<in> set (drop 8 s)" by simp
    with that(1) sorted_parts have "- p_created_at p \<le> - p_created_at q"
      by (auto simp: sorted_append)
    then show ?thesis by simp
  qed
  from c0 c1 c2 c3 c4 c5 show ?thesis
    unfolding act_def [symmetric] by blast
qed

theorem index_featured_witness:
  "index shop anonymous =
     \<lparr>new_db = shop, new_session = anonymous, flashed = [],
      resp = Render_template (Index_html [card_c, card_a, card_d] [games])\<rparr>"
  using index_featured [of shop anonymous]
  by (simp add: index_def shop_defs)


subsection \<open>Product detail\<close>

text \<open>
  Claim C8, as amended. For every product id that fits a signed 64-bit integer,
  \<^verbatim>\<open>product_detail\<close> answers not-found exactly when no row of the product table has that
  id; otherwise it renders the product with that id together with at most 4 related
  products, each an active row of the product table with the product's category and an
  id other than the product's (so none is the product itself). An id outside that range
  cannot be bound to the query: the request ends in the server-error page. The database
  and the session are unchanged in every case.
\<close>

theorem product_detail_correct:
  "(\<not> fits_int64 product_id \<longrightarrow>
      resp (product_detail db sess product_id) = Server_error)
   \<and> (fits_int64 product_id \<longrightarrow>
        (resp (product_detail db sess product_id) = Not_found \<longleftrightarrow>
           \<not> (\<exists>p \<in> set (product_table db). p_id p = product_id)) \<and>
        ((\<exists>p \<in> set (product_table db). p_id p = product_id) \<longrightarrow>
           (\<exists>prd related.
              resp (product_detail db sess product_id) =
                Render_template (Product_detail_html prd related)
            \<and> prd \<in> set (product_table db) \<and> p_id prd = product_id
            \<and> length related \<le> 4
            \<and> (\<forall>q \<in> set related.
                  q \<in> set (product_table db) \<and> is_active q \<and>
                  category_id q = category_id prd \<and> p_id q \<noteq> p_id prd \<and> q \<noteq> prd))))
   \<and> new_db (product_detail db sess product_id) = db
   \<and> new_session (product_detail db sess product_id) = sess
   \<and> flashed (product_detail db sess product_id) = []"
proof (cases "fits_int64 product_id")
  case False
  then show ?thesis by (simp add: product_detail_def server_error_def)
next
  case fits: True
  show ?thesis
  proof (cases "find (\<lambda>p. p_id p = product_id) (product_table db)")
    case None
    then have "\<not> (\<exists>p \<in> set (product_table db). p_id p = product_id)"
      by (simp add: find_None_iff)
    with None fits show ?thesis
      by (simp add: product_detail_def not_found_def)
  next
    case (Some prd)
    then have prd: "prd \<in> set (product_table db)" "p_id prd = product_id"
      by (auto simp: find_Some_iff)
    define related where
      "related = take 4 (filter (\<lambda>q. category_id q = category_id prd \<and>
                                     p_id q \<noteq> p_id prd \<and> is_active q) (product_table db))"
    have r: "product_detail db sess product_id =
        \<lparr>new_db = db, new_session = sess, flashed = [],
         resp = Render_template (Product_detail_html prd related)\<rparr>"
      using Some fits by (simp add: product_detail_def related_def)
    have len: "length related \<le> 4"
      by (simp add: related_def)
    have each: "q \<in> set (product_table db) \<and> is_active q \<and>
                 category_id q = category_id prd \<and> p_id q \<noteq> p_id prd \<and> q \<noteq> prd"
      if "q \<in> set related" for q
    proof -
      from that have "q \<in> set (filter (\<lambda>q. category_id q = category_id prd \<and>
                                     p_id q \<noteq> p_id prd \<and> is_active q) (product_table db))"
        unfolding related_def by (rule in_set_takeD)
      then show ?thesis by auto
    qed
    from prd have ex: "\<exists>p \<in> set (product_table db). p_id p = product_id" by blast
    have a: "resp (product_detail db sess product_id) = Not_found \<longleftrightarrow>
        \<not> (\<exists>p \<in> set (product_table db). p_id p = product_id)"
      using ex by (simp add: r)
    have b: "\<exists>prd related.
             resp (product_detail db sess product_id) =
               Render_template (Product_detail_html prd related)
           \<and> prd \<in> set (product_table db) \<and> p_id prd = product_id
           \<and> length related \<le> 4
           \<and> (\<forall>q \<in> set related.
                 q \<in> set (product_table db) \<and> is_active q \<and>
                 category_id q = category_id prd \<and> p_id q \<noteq> p_id prd \<and> q \<noteq> prd)"
    proof (intro exI [of _ prd] exI [of _ related] conjI ballI)
      show "resp (product_detail db sess product_id) =
               Render_template (Product_detail_html prd related)"
        by (simp add: r)
    qed (use prd len each in blast)+
    have c: "new_db (product_detail db sess product_id) = db
     \<and> new_session (product_detail db sess product_id) = sess
     \<and> flashed (product_detail db sess product_id) = []"
      by (simp add: r)
    from a b c fits show ?thesis by blast
  qed
qed


theorem product_detail_correct_witness:
  "fits_int64 1 \<and> fits_int64 9
   \<and> product_detail shop anonymous 1 =
     \<lparr>new_db = shop, new_session = anonymous, flashed = [],
      resp = Render_template (Product_detail_html card_a [card_d])\<rparr>
   \<and> resp (product_detail shop anonymous 9) = Not_found
   \<and> filter (\<lambda>p. p_id p = 9) (product_table shop) = []"
  using product_detail_correct [of 1 shop anonymous] product_detail_correct [of 9 shop anonymous]
  by (simp add: product_detail_def not_found_def fits_int64_def shop_defs)


text \<open>
  The claim as first stated (C8) speaks of every product id. The route accepts the id
  \<open>2 ^ 63\<close>; no product has it, and the response is the server-error page, not not-found.
\<close>

theorem product_detail_overflow_counterexample:
  "\<not> (\<exists>p \<in> set (product_table shop). p_id p = 2 ^ 63)
   \<and> resp (product_detail shop anonymous (2 ^ 63)) = Server_error
   \<and> resp (product_detail shop anonymous (2 ^ 63)) \<noteq> Not_found"
  by (simp add: product_detail_def server_error_def fits_int64_def shop_defs)

subsection \<open>The product list\<close>

lemma paginate_12:
  "paginate bound rows n 12 =
     (if n < 1 then Inl Abort_404
      else if \<not> (list_all fits_int64 bound \<and> fits_int64 ((n - 1) * 12)) then Inl Overflow_error
      else if n \<noteq> 1 \<and> length rows \<le> (nat n - 1) * 12 then Inl Abort_404
      else Inr \<lparr>items = take 12 (drop ((nat n - 1) * 12) rows), page = n, per_page = 12,
                total = length rows\<rparr>)"
  by (auto simp: paginate_def Let_def take_eq_Nil)

lemma products_plain:
  assumes "cat_arg = None \<or> cat_arg = Some 0"
  shows "products db sess cat_arg page_arg =
     (if page_arg < 1 then not_found db sess
      else if \<not> fits_int64 ((page_arg - 1) * 12) then server_error db sess
      else if page_arg \<noteq> 1 \<and>
              length (filter is_active (product_table db)) \<le> (nat page_arg - 1) * 12
        then not_found db sess
      else \<lparr>new_db = db, new_session = sess, flashed = [],
            resp = Render_template
              (Products_html
                 \<lparr>items = take 12 (drop ((nat page_arg - 1) * 12)
                                   (filter is_active (product_table db))),
                  page = page_arg, per_page = 12,
                  total = length (filter is_active (product_table db))\<rparr>
                 title_all_products)\<rparr>)"
proof -
  have "products db sess cat_arg page_arg =
    (case paginate [] (filter is_active (product_table db)) page_arg 12 of
       Inl Abort_404 \<Rightarrow> not_found db sess
     | Inl Overflow_error \<Rightarrow> server_error db sess
     | Inr prods \<Rightarrow>
         \<lparr>new_db = db, new_session = sess, flashed = [],
          resp = Render_template (Products_html prods title_all_products)\<rparr>)"
    using assms by (auto simp: products_def)
  then show ?thesis by (simp add: paginate_12)
qed

lemma products_category:
  assumes "cat_arg = Some k" "k \<noteq> 0"
  shows "products db sess cat_arg page_arg =
     (if page_arg < 1 then not_found db sess
      else if \<not> (fits_int64 k \<and> fits_int64 ((page_arg - 1) * 12)) then server_error db sess
      else if page_arg \<noteq> 1 \<and>
              length (filter (\<lambda>p. is_active p \<and> category_id p = Some k) (product_table db))
                \<le> (nat page_arg - 1) * 12
        then not_found db sess
      else
        (case find (\<lambda>c. c_id c = k) (category_table db) of
           None \<Rightarrow> not_found db sess
         | Some cat \<Rightarrow>
             \<lparr>new_db = db, new_session = sess, flashed = [],
              resp = Render_template
                (Products_html
                   \<lparr>items = take 12 (drop ((nat page_arg - 1) * 12)
                       (filter (\<lambda>p. is_active p \<and> category_id p = Some k) (product_table db))),
                    page = page_arg, per_page = 12,
                    total = length (filter (\<lambda>p. is_active p \<and> category_id p = Some k)
                                      (product_table db))\<rparr>
                   (title_category_prefix @ c_name cat))\<rparr>))"
  using assms by (simp add: products_def paginate_12 split: option.split)




lemma products_plain_frame:
  assumes plain: "cat_arg = None \<or> cat_arg = Some 0"
  shows "resp (products db sess cat_arg page_arg) = Not_found \<or>
         resp (products db sess cat_arg page_arg) = Server_error \<or>
         (\<exists>pg title. resp (products db sess cat_arg page_arg) =
            Render_template (Products_html pg title))"
    and "new_db (products db sess cat_arg page_arg) = db"
    and "new_session (products db sess cat_arg page_arg) = sess"
    and "flashed (products db sess cat_arg page_arg) = []"
  unfolding products_plain [OF plain]
  by (simp_all add: not_found_def server_error_def)






lemma products_category_frame:
  assumes k: "cat_arg = Some k" "k \<noteq> 0"
  shows "(resp (products db sess cat_arg page_arg) = Server_error \<longleftrightarrow>
            1 \<le> page_arg \<and> \<not> (fits_int64 k \<and> fits_int64 ((page_arg - 1) * 12)))"
    and "resp (products db sess cat_arg page_arg) = Not_found \<or>
         resp (products db sess cat_arg page_arg) = Server_error \<or>
         (\<exists>pg title. resp (products db sess cat_arg page_arg) =
            Render_template (Products_html pg title))"
    and "new_db (products db sess cat_arg page_arg) = db"
    and "new_session (products db sess cat_arg page_arg) = sess"
    and "flashed (products db sess cat_arg page_arg) = []"
  unfolding products_category [OF k]
  by (cases "find (\<lambda>c. c_id c = k) (category_table db)";
      simp add: not_found_def server_error_def)+



lemma products_keeps_db: "new_db (products db sess cat_arg page_arg) = db"
proof (cases "cat_arg = None \<or> cat_arg = Some 0")
  case True
  then show ?thesis by (rule products_plain_frame(2))
next
  case False
  then obtain k where k: "cat_arg = Some k" "k \<noteq> 0" by auto
  then show ?thesis by (rule products_category_frame(3))
qed

lemma product_detail_keeps_db: "new_db (product_detail db sess product_id) = db"
  by (simp add: product_detail_def not_found_def server_error_def split: option.split)













subsection \<open>Registration\<close>

lemma insert_user_fresh:
  assumes "\<not> (\<exists>u \<in> set (user_table db). Some (username u) = Some n \<or> Some (email u) = Some e)"
  shows "insert_user utcnow db (Some n) (Some e) (Some h) fname lname =
     Some (db\<lparr>user_table := user_table db @
        [\<lparr>u_id = next_id (map u_id (user_table db)), username = n, email = e,
          password = h, first_name = fname, last_name = lname, is_admin = False,
          loyalty_points = 0, u_created_at = utcnow, last_login = None\<rparr>]\<rparr>)"
  using assms by (auto simp: insert_user_def)

lemma insert_user_null:
  "un = None \<or> em = None \<Longrightarrow> insert_user utcnow db un em pwhash fname lname = None"
  by (auto simp: insert_user_def split: option.splits)

lemma register_mismatch:
  "frm ''password'' \<noteq> frm ''confirm_password'' \<Longrightarrow>
   register gen_hash utcnow db sess POST frm =
     \<lparr>new_db = db, new_session = sess, flashed = [(msg_password_mismatch, ''danger'')],
      resp = Redirect ''register''\<rparr>"
  by (simp add: register_def)

lemma register_taken:
  assumes "frm ''password'' = frm ''confirm_password''"
    and "\<exists>u \<in> set (user_table db).
           Some (username u) = frm ''username'' \<or> Some (email u) = frm ''email''"
  shows "register gen_hash utcnow db sess POST frm =
     \<lparr>new_db = db, new_session = sess, flashed = [(msg_already_used, ''danger'')],
      resp = Redirect ''register''\<rparr>"
proof -
  from assms(2) obtain x where
    "find (\<lambda>u. Some (username u) = frm ''username'' \<or> Some (email u) = frm ''email'')
       (user_table db) = Some x"
    by (cases "find (\<lambda>u. Some (username u) = frm ''username'' \<or> Some (email u) = frm ''email'')
       (user_table db)") (auto simp: find_None_iff)
  with assms(1) show ?thesis by (simp add: register_def)
qed

lemma register_free:
  assumes "frm ''password'' = frm ''confirm_password''"
    and "\<not> (\<exists>u \<in> set (user_table db).
           Some (username u) = frm ''username'' \<or> Some (email u) = frm ''email'')"
  shows "register gen_hash utcnow db sess POST frm =
     (case gen_hash (frm ''password'') of
        None \<Rightarrow> server_error db sess
      | Some h \<Rightarrow>
          (case insert_user utcnow db (frm ''username'') (frm ''email'') (Some h)
                  (frm ''first_name'') (frm ''last_name'') of
             None \<Rightarrow> server_error db sess
           | Some db' \<Rightarrow>
               \<lparr>new_db = db', new_session = sess,
                flashed = [(msg_account_created, ''success'')],
                resp = Redirect ''login''\<rparr>))"
proof -
  from assms(2) have
    "find (\<lambda>u. Some (username u) = frm ''username'' \<or> Some (email u) = frm ''email'')
       (user_table db) = None"
    by (simp add: find_None_iff)
  with assms(1) show ?thesis by (simp add: register_def)
qed

lemma register_bob:
  "register (generate_password_hash known_method ''scrypt'' ''s2'') 7 empty_shop anonymous POST
     [''username'' \<mapsto> ''bob'', ''email'' \<mapsto> ''b@x.com'', ''password'' \<mapsto> ''pw2'',
      ''confirm_password'' \<mapsto> ''pw2''] =
   \<lparr>new_db = empty_shop\<lparr>user_table := [alice, site_admin,
       \<lparr>u_id = 3, username = ''bob'', email = ''b@x.com'', password = ''scrypt$s2$scrypt$s2$pw2'',
        first_name = None, last_name = None, is_admin = False, loyalty_points = 0,
        u_created_at = 7, last_login = None\<rparr>]\<rparr>,
    new_session = anonymous, flashed = [(msg_account_created, ''success'')],
    resp = Redirect ''login''\<rparr>"
  by (simp add: register_def insert_user_def next_id_def generate_password_hash_def digest_def known_method_def empty_shop_def
      alice_def site_admin_def)

lemma register_stored:
  assumes pw: "frm ''password'' = frm ''confirm_password''"
    and free: "\<not> (\<exists>u \<in> set (user_table db).
             Some (username u) = frm ''username'' \<or> Some (email u) = frm ''email'')"
    and un: "frm ''username'' = Some n" and em: "frm ''email'' = Some e"
    and gh: "gen_hash (frm ''password'') = Some h"
  shows "register gen_hash utcnow db sess POST frm =
            \<lparr>new_db = db\<lparr>user_table := user_table db @
               [\<lparr>u_id = next_id (map u_id (user_table db)), username = n, email = e,
                 password = h, first_name = frm ''first_name'', last_name = frm ''last_name'',
                 is_admin = False, loyalty_points = 0, u_created_at = utcnow,
                 last_login = None\<rparr>]\<rparr>,
             new_session = sess, flashed = [(msg_account_created, ''success'')],
             resp = Redirect ''login''\<rparr>"
proof -
  from free have fresh: "\<not> (\<exists>u \<in> set (user_table db).
      Some (username u) = Some n \<or> Some (email u) = Some e)"
    unfolding un em .
  show ?thesis
    unfolding register_free [OF pw free] gh un em
    by (simp add: insert_user_fresh [OF fresh])
qed

text \<open>
  Claim C2, as amended. For every register POST:
  \<^item> if the password and its confirmation differ, the request is rejected: the mismatch
    message is flashed, the response redirects to the register page and the database is
    unchanged;
  \<^item> if they agree and some user already has the submitted username or the submitted
    email, the request is rejected likewise, with the already-used message;
  \<^item> otherwise, when the form carries a username and an email and the hash call returns
    a hash for the submitted password, exactly one user is added, whose password field
    is that hash, and the response redirects to the login page; any later register POST
    with the same email is rejected;
  \<^item> otherwise (a username or an email is missing, or the hash call raises, as it does
    when no password was sent) nothing is stored and the request ends in the server-error
    page;
  \<^item> with \<^verbatim>\<open>generate_password_hash\<close> as the hash call, whatever its salt and its (known)
    method: when the form carries a username, an email and a password and passes the two
    checks, the stored password field is the salted hash of the submitted password and
    not the submitted password itself, and (no \<^verbatim>\<open>$\<close> in method or salt)
    \<^verbatim>\<open>check_password_hash\<close> accepts for it the submitted password and no other.
\<close>

theorem register_post_correct:
  "(frm ''password'' \<noteq> frm ''confirm_password'' \<longrightarrow>
      register gen_hash utcnow db sess POST frm =
        \<lparr>new_db = db, new_session = sess, flashed = [(msg_password_mismatch, ''danger'')],
         resp = Redirect ''register''\<rparr>)
   \<and> (frm ''password'' = frm ''confirm_password'' \<and>
       (\<exists>u \<in> set (user_table db).
           Some (username u) = frm ''username'' \<or> Some (email u) = frm ''email'') \<longrightarrow>
      register gen_hash utcnow db sess POST frm =
        \<lparr>new_db = db, new_session = sess, flashed = [(msg_already_used, ''danger'')],
         resp = Redirect ''register''\<rparr>)
   \<and> (\<forall>n e h.
        frm ''password'' = frm ''confirm_password'' \<and>
        \<not> (\<exists>u \<in> set (user_table db).
             Some (username u) = frm ''username'' \<or> Some (email u) = frm ''email'') \<and>
        frm ''username'' = Some n \<and> frm ''email'' = Some e \<and>
        gen_hash (frm ''password'') = Some h \<longrightarrow>
          register gen_hash utcnow db sess POST frm =
            \<lparr>new_db = db\<lparr>user_table := user_table db @
               [\<lparr>u_id = next_id (map u_id (user_table db)), username = n, email = e,
                 password = h, first_name = frm ''first_name'', last_name = frm ''last_name'',
                 is_admin = False, loyalty_points = 0, u_created_at = utcnow,
                 last_login = None\<rparr>]\<rparr>,
             new_session = sess, flashed = [(msg_account_created, ''success'')],
             resp = Redirect ''login''\<rparr>
        \<and> (\<forall>gen_hash2 t2 sess2 frm2.
              frm2 ''password'' = frm2 ''confirm_password'' \<and> frm2 ''email'' = Some e \<longrightarrow>
              register gen_hash2 t2 (new_db (register gen_hash utcnow db sess POST frm)) sess2
                POST frm2 =
                \<lparr>new_db = new_db (register gen_hash utcnow db sess POST frm),
                 new_session = sess2, flashed = [(msg_already_used, ''danger'')],
                 resp = Redirect ''register''\<rparr>))
   \<and> (frm ''password'' = frm ''confirm_password'' \<and>
       \<not> (\<exists>u \<in> set (user_table db).
             Some (username u) = frm ''username'' \<or> Some (email u) = frm ''email'') \<and>
       (frm ''username'' = None \<or> frm ''email'' = None \<or> gen_hash (frm ''password'') = None) \<longrightarrow>
          register gen_hash utcnow db sess POST frm = server_error db sess)
   \<and> (\<forall>method salt n e pw.
        frm ''password'' = frm ''confirm_password'' \<and>
        \<not> (\<exists>u \<in> set (user_table db).
             Some (username u) = frm ''username'' \<or> Some (email u) = frm ''email'') \<and>
        frm ''username'' = Some n \<and> frm ''email'' = Some e \<and> frm ''password'' = Some pw \<and>
        valid_method method \<longrightarrow>
        (\<exists>h. generate_password_hash valid_method method salt (Some pw) = Some h \<and> h \<noteq> pw \<and>
           register (generate_password_hash valid_method method salt) utcnow db sess POST frm =
             \<lparr>new_db = db\<lparr>user_table := user_table db @
                [\<lparr>u_id = next_id (map u_id (user_table db)), username = n, email = e,
                  password = h, first_name = frm ''first_name'', last_name = frm ''last_name'',
                  is_admin = False, loyalty_points = 0, u_created_at = utcnow,
                  last_login = None\<rparr>]\<rparr>,
              new_session = sess, flashed = [(msg_account_created, ''success'')],
              resp = Redirect ''login''\<rparr> \<and>
           (CHR ''$'' \<notin> set method \<and> CHR ''$'' \<notin> set salt \<longrightarrow>
              (\<forall>q. check_password_hash valid_method h (Some q) = Some (q = pw)))))"
proof (intro conjI impI allI)
  assume "frm ''password'' \<noteq> frm ''confirm_password''"
  then show "register gen_hash utcnow db sess POST frm =
        \<lparr>new_db = db, new_session = sess, flashed = [(msg_password_mismatch, ''danger'')],
         resp = Redirect ''register''\<rparr>"
    by (rule register_mismatch)
next
  assume "frm ''password'' = frm ''confirm_password'' \<and>
       (\<exists>u \<in> set (user_table db).
           Some (username u) = frm ''username'' \<or> Some (email u) = frm ''email'')"
  then show "register gen_hash utcnow db sess POST frm =
        \<lparr>new_db = db, new_session = sess, flashed = [(msg_already_used, ''danger'')],
         resp = Redirect ''register''\<rparr>"
    using register_taken by blast
next
  fix n e h
  assume a: "frm ''password'' = frm ''confirm_password'' \<and>
        \<not> (\<exists>u \<in> set (user_table db).
             Some (username u) = frm ''username'' \<or> Some (email u) = frm ''email'') \<and>
        frm ''username'' = Some n \<and> frm ''email'' = Some e \<and>
        gen_hash (frm ''password'') = Some h"
  then have pw: "frm ''password'' = frm ''confirm_password''"
    and free: "\<not> (\<exists>u \<in> set (user_table db).
             Some (username u) = frm ''username'' \<or> Some (email u) = frm ''email'')"
    and un: "frm ''username'' = Some n" and em: "frm ''email'' = Some e"
    and gh: "gen_hash (frm ''password'') = Some h"
    by blast+
  show r: "register gen_hash utcnow db sess POST frm =
            \<lparr>new_db = db\<lparr>user_table := user_table db @
               [\<lparr>u_id = next_id (map u_id (user_table db)), username = n, email = e,
                 password = h, first_name = frm ''first_name'', last_name = frm ''last_name'',
                 is_admin = False, loyalty_points = 0, u_created_at = utcnow,
                 last_login = None\<rparr>]\<rparr>,
             new_session = sess, flashed = [(msg_account_created, ''success'')],
             resp = Redirect ''login''\<rparr>"
    by (rule register_stored [where frm = frm and gen_hash = gen_hash, OF pw free un em gh])
  fix gen_hash2 t2 sess2 frm2
  assume b: "frm2 ''password'' = frm2 ''confirm_password'' \<and> frm2 ''email'' = Some e"
  then have pw2: "frm2 ''password'' = frm2 ''confirm_password''"
    and em2: "frm2 ''email'' = Some e"
    by blast+
  have "\<exists>u \<in> set (user_table (new_db (register gen_hash utcnow db sess POST frm))).
           Some (username u) = frm2 ''username'' \<or> Some (email u) = frm2 ''email''"
    unfolding r em2 by simp
  with pw2 show "register gen_hash2 t2 (new_db (register gen_hash utcnow db sess POST frm)) sess2
                POST frm2 =
                \<lparr>new_db = new_db (register gen_hash utcnow db sess POST frm),
                 new_session = sess2, flashed = [(msg_already_used, ''danger'')],
                 resp = Redirect ''register''\<rparr>"
    by (rule register_taken)
next
  assume a: "frm ''password'' = frm ''confirm_password'' \<and>
       \<not> (\<exists>u \<in> set (user_table db).
             Some (username u) = frm ''username'' \<or> Some (email u) = frm ''email'') \<and>
       (frm ''username'' = None \<or> frm ''email'' = None \<or> gen_hash (frm ''password'') = None)"
  then have pw: "frm ''password'' = frm ''confirm_password''"
    and free: "\<not> (\<exists>u \<in> set (user_table db).
             Some (username u) = frm ''username'' \<or> Some (email u) = frm ''email'')"
    by blast+
  from a have missing: "frm ''username'' = None \<or> frm ''email'' = None \<or>
                  gen_hash (frm ''password'') = None"
    by (rule conjunct2 [OF conjunct2])
  show "register gen_hash utcnow db sess POST frm = server_error db sess"
  proof (cases "gen_hash (frm ''password'')")
    case None
    show ?thesis unfolding register_free [OF pw free] None by simp
  next
    case (Some h)
    with missing have "frm ''username'' = None \<or> frm ''email'' = None" by simp
    then have ins: "insert_user utcnow db (frm ''username'') (frm ''email'') (Some h)
                  (frm ''first_name'') (frm ''last_name'') = None"
      by (rule insert_user_null)
    show ?thesis unfolding register_free [OF pw free] Some by (simp add: ins)
  qed
next
  fix meth salt n e pw
  assume a: "frm ''password'' = frm ''confirm_password'' \<and>
        \<not> (\<exists>u \<in> set (user_table db).
             Some (username u) = frm ''username'' \<or> Some (email u) = frm ''email'') \<and>
        frm ''username'' = Some n \<and> frm ''email'' = Some e \<and> frm ''password'' = Some pw \<and>
        valid_method meth"
  then have same: "frm ''password'' = frm ''confirm_password''"
    and free: "\<not> (\<exists>u \<in> set (user_table db).
             Some (username u) = frm ''username'' \<or> Some (email u) = frm ''email'')"
    and un: "frm ''username'' = Some n" and em: "frm ''email'' = Some e"
    and sent: "frm ''password'' = Some pw" and known: "valid_method meth"
    by blast+
  define h where "h = meth @ ''$'' @ salt @ ''$'' @ digest meth salt pw"
  have g: "generate_password_hash valid_method meth salt (Some pw) = Some h"
    using known by (simp add: generate_password_hash_def h_def)
  have gh: "generate_password_hash valid_method meth salt (frm ''password'') = Some h"
    unfolding sent by (rule g)
  have differs: "h \<noteq> pw" using g by (rule generated_hash_is_not_raw)
  have stored: "register (generate_password_hash valid_method meth salt) utcnow db sess POST frm =
             \<lparr>new_db = db\<lparr>user_table := user_table db @
                [\<lparr>u_id = next_id (map u_id (user_table db)), username = n, email = e,
                  password = h, first_name = frm ''first_name'', last_name = frm ''last_name'',
                  is_admin = False, loyalty_points = 0, u_created_at = utcnow,
                  last_login = None\<rparr>]\<rparr>,
              new_session = sess, flashed = [(msg_account_created, ''success'')],
              resp = Redirect ''login''\<rparr>"
    by (rule register_stored [where frm = frm and gen_hash = "generate_password_hash valid_method meth salt", OF same free un em gh])
  have verify: "CHR ''$'' \<notin> set meth \<and> CHR ''$'' \<notin> set salt \<longrightarrow>
              (\<forall>q. check_password_hash valid_method h (Some q) = Some (q = pw))"
  proof (intro impI allI, elim conjE)
    fix q
    assume v: "CHR ''$'' \<notin> set meth" "CHR ''$'' \<notin> set salt"
    show "check_password_hash valid_method h (Some q) = Some (q = pw)"
      by (rule hash_round_trip [of meth salt valid_method, OF v g])
  qed
  from g differs stored verify
  show "\<exists>h. generate_password_hash valid_method meth salt (Some pw) = Some h \<and> h \<noteq> pw \<and>
           register (generate_password_hash valid_method meth salt) utcnow db sess POST frm =
             \<lparr>new_db = db\<lparr>user_table := user_table db @
                [\<lparr>u_id = next_id (map u_id (user_table db)), username = n, email = e,
                  password = h, first_name = frm ''first_name'', last_name = frm ''last_name'',
                  is_admin = False, loyalty_points = 0, u_created_at = utcnow,
                  last_login = None\<rparr>]\<rparr>,
              new_session = sess, flashed = [(msg_account_created, ''success'')],
              resp = Redirect ''login''\<rparr> \<and>
           (CHR ''$'' \<notin> set meth \<and> CHR ''$'' \<notin> set salt \<longrightarrow>
              (\<forall>q. check_password_hash valid_method h (Some q) = Some (q = pw)))"
    by (intro exI [of _ h] conjI)
qed

theorem register_post_correct_witness:
  "register (generate_password_hash known_method ''scrypt'' ''s2'') 7 empty_shop anonymous POST
     [''username'' \<mapsto> ''bob'', ''email'' \<mapsto> ''b@x.com'', ''password'' \<mapsto> ''pw2'',
      ''confirm_password'' \<mapsto> ''pw2''] =
   \<lparr>new_db = empty_shop\<lparr>user_table := [alice, site_admin,
       \<lparr>u_id = 3, username = ''bob'', email = ''b@x.com'', password = ''scrypt$s2$scrypt$s2$pw2'',
        first_name = None, last_name = None, is_admin = False, loyalty_points = 0,
        u_created_at = 7, last_login = None\<rparr>]\<rparr>,
    new_session = anonymous, flashed = [(msg_account_created, ''success'')],
    resp = Redirect ''login''\<rparr>
   \<and> ''scrypt$s2$scrypt$s2$pw2'' \<noteq> ''pw2''
   \<and> check_password_hash known_method ''scrypt$s2$scrypt$s2$pw2'' (Some ''pw2'') = Some True
   \<and> check_password_hash known_method ''scrypt$s2$scrypt$s2$pw2'' (Some ''pw3'') = Some False
   \<and> register (generate_password_hash known_method ''scrypt'' ''s2'') 7 empty_shop anonymous POST
     [''username'' \<mapsto> ''alice2'', ''email'' \<mapsto> ''a@x.com'', ''password'' \<mapsto> ''pw2'',
      ''confirm_password'' \<mapsto> ''pw2''] =
   \<lparr>new_db = empty_shop, new_session = anonymous,
    flashed = [(msg_already_used, ''danger'')], resp = Redirect ''register''\<rparr>
   \<and> resp (register (generate_password_hash known_method ''scrypt'' ''s2'') 7 empty_shop anonymous POST
     [''username'' \<mapsto> ''bob'', ''email'' \<mapsto> ''b@x.com'', ''password'' \<mapsto> ''pw2'',
      ''confirm_password'' \<mapsto> ''pw3'']) = Redirect ''register''"
proof -
  let ?gen = "generate_password_hash known_method ''scrypt'' ''s2''"
  let ?bob = "[''username'' \<mapsto> ''bob'', ''email'' \<mapsto> ''b@x.com'', ''password'' \<mapsto> ''pw2'',
      ''confirm_password'' \<mapsto> ''pw2'']"
  let ?frm = "[''username'' \<mapsto> ''alice2'', ''email'' \<mapsto> ''a@x.com'', ''password'' \<mapsto> ''pw2'',
      ''confirm_password'' \<mapsto> ''pw2'']"
  let ?bad = "[''username'' \<mapsto> ''bob'', ''email'' \<mapsto> ''b@x.com'', ''password'' \<mapsto> ''pw2'',
      ''confirm_password'' \<mapsto> ''pw3'']"
  have same: "?frm ''password'' = ?frm ''confirm_password''" by simp
  have taken: "\<exists>u \<in> set (user_table empty_shop).
      Some (username u) = ?frm ''username'' \<or> Some (email u) = ?frm ''email''"
    by (simp add: empty_shop_def alice_def)
  from register_post_correct [of ?frm ?gen 7 empty_shop anonymous]
  have "?frm ''password'' = ?frm ''confirm_password'' \<and>
       (\<exists>u \<in> set (user_table empty_shop).
           Some (username u) = ?frm ''username'' \<or> Some (email u) = ?frm ''email'') \<longrightarrow>
      register ?gen 7 empty_shop anonymous POST ?frm =
        \<lparr>new_db = empty_shop, new_session = anonymous,
         flashed = [(msg_already_used, ''danger'')], resp = Redirect ''register''\<rparr>"
    by (rule conjunct1 [OF conjunct2])
  with same taken have second: "register ?gen 7 empty_shop anonymous POST ?frm =
        \<lparr>new_db = empty_shop, new_session = anonymous,
         flashed = [(msg_already_used, ''danger'')], resp = Redirect ''register''\<rparr>"
    by blast
  have differ: "?bad ''password'' \<noteq> ?bad ''confirm_password''" by simp
  from register_post_correct [of ?bad ?gen 7 empty_shop anonymous]
  have "?bad ''password'' \<noteq> ?bad ''confirm_password'' \<longrightarrow>
      register ?gen 7 empty_shop anonymous POST ?bad =
        \<lparr>new_db = empty_shop, new_session = anonymous,
         flashed = [(msg_password_mismatch, ''danger'')], resp = Redirect ''register''\<rparr>"
    by (rule conjunct1)
  with differ have third: "resp (register ?gen 7 empty_shop anonymous POST ?bad) =
      Redirect ''register''"
    by simp
  have bob: "?bob ''password'' = ?bob ''confirm_password'' \<and>
        \<not> (\<exists>u \<in> set (user_table empty_shop).
             Some (username u) = ?bob ''username'' \<or> Some (email u) = ?bob ''email'') \<and>
        ?bob ''username'' = Some ''bob'' \<and> ?bob ''email'' = Some ''b@x.com'' \<and>
        ?bob ''password'' = Some ''pw2'' \<and> known_method ''scrypt''"
    by (simp add: empty_shop_def alice_def site_admin_def known_method_def)
  have known: "CHR ''$'' \<notin> set ''scrypt'' \<and> CHR ''$'' \<notin> set ''s2''"
    by simp
  have gen: "generate_password_hash known_method ''scrypt'' ''s2'' (Some ''pw2'') = Some ''scrypt$s2$scrypt$s2$pw2''"
    by (simp add: generate_password_hash_def digest_def known_method_def)
  from register_post_correct [of ?bob ?gen 7 empty_shop anonymous known_method]
  have all5: "\<forall>method salt n e pw.
        ?bob ''password'' = ?bob ''confirm_password'' \<and>
        \<not> (\<exists>u \<in> set (user_table empty_shop).
             Some (username u) = ?bob ''username'' \<or> Some (email u) = ?bob ''email'') \<and>
        ?bob ''username'' = Some n \<and> ?bob ''email'' = Some e \<and> ?bob ''password'' = Some pw \<and>
        known_method method \<longrightarrow>
        (\<exists>h. generate_password_hash known_method method salt (Some pw) = Some h \<and> h \<noteq> pw \<and>
           register (generate_password_hash known_method method salt) 7 empty_shop anonymous POST ?bob =
             \<lparr>new_db = empty_shop\<lparr>user_table := user_table empty_shop @
                [\<lparr>u_id = next_id (map u_id (user_table empty_shop)), username = n, email = e,
                  password = h, first_name = ?bob ''first_name'', last_name = ?bob ''last_name'',
                  is_admin = False, loyalty_points = 0, u_created_at = 7,
                  last_login = None\<rparr>]\<rparr>,
              new_session = anonymous, flashed = [(msg_account_created, ''success'')],
              resp = Redirect ''login''\<rparr> \<and>
           (CHR ''$'' \<notin> set method \<and> CHR ''$'' \<notin> set salt \<longrightarrow>
              (\<forall>q. check_password_hash known_method h (Some q) = Some (q = pw))))"
    by (rule conjunct2 [OF conjunct2 [OF conjunct2 [OF conjunct2]]])
  note s1 = spec [OF all5, of "''scrypt''"]
  note s2 = spec [OF s1, of "''s2''"]
  note s3 = spec [OF s2, of "''bob''"]
  note s4 = spec [OF s3, of "''b@x.com''"]
  note s5 = spec [OF s4, of "''pw2''"]
  from mp [OF s5 bob] obtain h where
    h: "generate_password_hash known_method ''scrypt'' ''s2'' (Some ''pw2'') = Some h" and "h \<noteq> ''pw2''"
    and v: "CHR ''$'' \<notin> set ''scrypt'' \<and> CHR ''$'' \<notin> set ''s2'' \<longrightarrow>
              (\<forall>q. check_password_hash known_method h (Some q) = Some (q = ''pw2''))"
    by (elim exE conjE)
  from h gen have eq: "h = ''scrypt$s2$scrypt$s2$pw2''" by simp
  from v known have chk: "\<forall>q. check_password_hash known_method h (Some q) = Some (q = ''pw2'')"
    by (rule mp)
  from \<open>h \<noteq> ''pw2''\<close> have fourth: "''scrypt$s2$scrypt$s2$pw2'' \<noteq> ''pw2''"
    unfolding eq .
  from spec [OF chk, of "''pw2''"]
  have fifth: "check_password_hash known_method ''scrypt$s2$scrypt$s2$pw2'' (Some ''pw2'') = Some True"
    unfolding eq by simp
  from spec [OF chk, of "''pw3''"]
  have sixth: "check_password_hash known_method ''scrypt$s2$scrypt$s2$pw2'' (Some ''pw3'') = Some False"
    unfolding eq by simp
  from register_bob fourth fifth sixth second third show ?thesis by (intro conjI)
qed


text \<open>
  The claim as first stated (C2) promises a stored user and the redirect to the login
  page for every POST that passes the two checks. A POST that sends no username passes
  them and violates \<^verbatim>\<open>nullable=False\<close> when the row is written: nothing is stored and
  the answer is the server-error page.
\<close>

theorem register_missing_username_counterexample:
  "[''email'' \<mapsto> ''b@x.com'', ''password'' \<mapsto> ''pw2'', ''confirm_password'' \<mapsto> ''pw2'']
     ''password'' =
   [''email'' \<mapsto> ''b@x.com'', ''password'' \<mapsto> ''pw2'', ''confirm_password'' \<mapsto> ''pw2'']
     ''confirm_password''
   \<and> filter (\<lambda>u. email u = ''b@x.com'') (user_table empty_shop) = []
   \<and> register (generate_password_hash known_method ''scrypt'' ''s2'') 7 empty_shop anonymous POST
       [''email'' \<mapsto> ''b@x.com'', ''password'' \<mapsto> ''pw2'', ''confirm_password'' \<mapsto> ''pw2''] =
     \<lparr>new_db = empty_shop, new_session = anonymous, flashed = [], resp = Server_error\<rparr>"
  by (simp add: register_def insert_user_def generate_password_hash_def digest_def known_method_def server_error_def empty_shop_def
      alice_def site_admin_def)

subsection \<open>Admin product management\<close>

lemma insert_product_Some:
  "insert_product to_float to_int utcnow db nm descr pr cat act = Some db' \<longleftrightarrow>
     (\<exists>n ptxt r c.
        nm = Some n \<and> pr = Some ptxt \<and> to_float ptxt = Some r \<and>
        (case cat of None \<Rightarrow> c = None | Some ctxt \<Rightarrow> c \<noteq> None \<and> to_int ctxt = c) \<and>
        db' = db\<lparr>product_table := product_table db @
                [\<lparr>p_id = next_id (map p_id (product_table db)), p_name = n,
                  p_description = descr, price = r, file_path = None, thumbnail = None,
                  category_id = c, is_active = act, p_created_at = utcnow\<rparr>]\<rparr>)"
  by (auto simp: insert_product_def split: option.splits)

lemma insert_user_tables:
  "insert_user utcnow db un em pwhash fname lname = Some db' \<Longrightarrow>
     product_table db' = product_table db \<and> category_table db' = category_table db"
  by (auto simp: insert_user_def split: option.splits if_splits)

lemma admin_add_product_admin:
  assumes "user_id sess = Some uid"
    and "find (\<lambda>u. u_id u = uid) (user_table db) = Some usr"
    and "is_admin usr"
  shows "admin_add_product to_float to_int utcnow db sess POST frm =
     (case insert_product to_float to_int utcnow db (frm ''name'') (frm ''description'')
             (frm ''price'') (frm ''category_id'')
             (case frm ''is_active'' of None \<Rightarrow> False | Some s \<Rightarrow> s \<noteq> []) of
        None \<Rightarrow> server_error db sess
      | Some db' \<Rightarrow>
          \<lparr>new_db = db', new_session = sess, flashed = [(msg_product_added, ''success'')],
           resp = Redirect ''admin_products''\<rparr>)"
  using assms by (simp add: admin_add_product_def Let_def)

lemma admin_add_product_redirect:
  assumes r: "resp (admin_add_product to_float to_int utcnow db sess method frm) =
             Redirect ''admin_products''"
  shows "method = POST \<and>
    insert_product to_float to_int utcnow db (frm ''name'') (frm ''description'')
             (frm ''price'') (frm ''category_id'')
             (case frm ''is_active'' of None \<Rightarrow> False | Some s \<Rightarrow> s \<noteq> []) =
      Some (new_db (admin_add_product to_float to_int utcnow db sess method frm)) \<and>
    new_session (admin_add_product to_float to_int utcnow db sess method frm) = sess \<and>
    (\<exists>uid usr. user_id sess = Some uid \<and>
       find (\<lambda>u. u_id u = uid) (user_table db) = Some usr \<and> is_admin usr)"
proof (cases "user_id sess")
  case None
  with r show ?thesis by (simp add: admin_add_product_def)
next
  case (Some uid)
  note uid = this
  show ?thesis
  proof (cases "find (\<lambda>u. u_id u = uid) (user_table db)")
    case None
    with r uid show ?thesis by (simp add: admin_add_product_def)
  next
    case (Some usr)
    note usr = this
    show ?thesis
    proof (cases "is_admin usr")
      case False
      with r uid usr show ?thesis by (simp add: admin_add_product_def)
    next
      case True
      note adm = this
      show ?thesis
      proof (cases "method")
        case GET
        with r uid usr adm show ?thesis by (simp add: admin_add_product_def)
      next
        case POST
        note eq = admin_add_product_admin [OF uid usr adm, of to_float to_int utcnow frm]
        show ?thesis
        proof (cases "insert_product to_float to_int utcnow db (frm ''name'')
            (frm ''description'') (frm ''price'') (frm ''category_id'')
            (case frm ''is_active'' of None \<Rightarrow> False | Some s \<Rightarrow> s \<noteq> [])")
          case None
          with r POST show ?thesis by (simp add: eq server_error_def)
        next
          case (Some db')
          with POST uid usr adm show ?thesis by (simp add: eq)
        qed
      qed
    qed
  qed
qed

lemma admin_add_product_new_db:
  assumes "new_db (admin_add_product to_float to_int utcnow db sess method frm) \<noteq> db"
  shows "resp (admin_add_product to_float to_int utcnow db sess method frm) =
      Redirect ''admin_products''"
proof (cases "user_id sess")
  case None
  with assms show ?thesis by (simp add: admin_add_product_def)
next
  case (Some uid)
  note uid = this
  show ?thesis
  proof (cases "find (\<lambda>u. u_id u = uid) (user_table db)")
    case None
    with assms uid show ?thesis by (simp add: admin_add_product_def)
  next
    case (Some usr)
    note usr = this
    show ?thesis
    proof (cases "is_admin usr")
      case False
      with assms uid usr show ?thesis by (simp add: admin_add_product_def)
    next
      case True
      note adm = this
      show ?thesis
      proof (cases "method")
        case GET
        with assms uid usr adm show ?thesis by (simp add: admin_add_product_def)
      next
        case POST
        note eq = admin_add_product_admin [OF uid usr adm, of to_float to_int utcnow frm]
        show ?thesis
        proof (cases "insert_product to_float to_int utcnow db (frm ''name'')
            (frm ''description'') (frm ''price'') (frm ''category_id'')
            (case frm ''is_active'' of None \<Rightarrow> False | Some s \<Rightarrow> s \<noteq> [])")
          case None
          with assms POST show ?thesis by (simp add: eq server_error_def)
        next
          case (Some db')
          with POST show ?thesis by (simp add: eq)
        qed
      qed
    qed
  qed
qed

lemma other_handlers_keep_products:
  "product_table (new_db (index db sess)) = product_table db"
  "product_table (new_db (products db sess cat_arg page_arg)) = product_table db"
  "product_table (new_db (product_detail db sess product_id)) = product_table db"
  "product_table (new_db (login check_pw utcnow db sess method frm)) = product_table db"
  "product_table (new_db (register gen_hash utcnow db sess method frm)) = product_table db"
  "product_table (new_db (logout db sess)) = product_table db"
  "product_table (new_db (admin_dashboard db sess)) = product_table db"
  "product_table (new_db (admin_products db sess)) = product_table db"
proof -
  show "product_table (new_db (index db sess)) = product_table db"
    by (simp add: index_def)
  show "product_table (new_db (products db sess cat_arg page_arg)) = product_table db"
    by (simp add: products_keeps_db)
  show "product_table (new_db (product_detail db sess product_id)) = product_table db"
    by (simp add: product_detail_keeps_db)
  show "product_table (new_db (login check_pw utcnow db sess method frm)) = product_table db"
    by (simp add: login_def Let_def server_error_def split: option.split bool.split)
  show "product_table (new_db (register gen_hash utcnow db sess method frm)) = product_table db"
    by (auto simp: register_def Let_def server_error_def dest: insert_user_tables
        split: option.split)
  show "product_table (new_db (logout db sess)) = product_table db"
    by (simp add: logout_def)
  show "product_table (new_db (admin_dashboard db sess)) = product_table db"
    by (simp add: admin_dashboard_def split: option.split)
  show "product_table (new_db (admin_products db sess)) = product_table db"
    by (simp add: admin_products_def split: option.split)
qed

lemma admin_products_admin:
  assumes "user_id sess = Some uid"
    and "find (\<lambda>u. u_id u = uid) (user_table db) = Some usr"
    and "is_admin usr"
  shows "admin_products db sess =
     \<lparr>new_db = db, new_session = sess, flashed = [],
      resp = Render_template (Admin_products_html (product_table db))\<rparr>"
  using assms by (simp add: admin_products_def)

lemma admin_products_listing:
  "resp (admin_products db sess) = Render_template (Admin_products_html ps) \<Longrightarrow>
     ps = product_table db"
  by (simp add: admin_products_def split: option.splits if_splits)

lemma add_card_e:
  "admin_add_product (\<lambda>s. if s = ''-5'' then Some (- 5) else None) (\<lambda>s. None) 7 shop
     admin_session POST [''name'' \<mapsto> ''card e'', ''price'' \<mapsto> ''-5''] =
   \<lparr>new_db = shop\<lparr>product_table := product_table shop @ [card_e]\<rparr>,
    new_session = admin_session, flashed = [(msg_product_added, ''success'')],
    resp = Redirect ''admin_products''\<rparr>"
  by (simp add: admin_add_product_def insert_product_def next_id_def admin_session_def
      card_e_def shop_defs)


text \<open>
  Claim C4, as amended. Only \<^verbatim>\<open>admin_add_product\<close> adds to the product table; every
  other handler leaves it as it is. When it adds, the request is a POST, exactly one
  product is appended, and its price is the number the submitted price field converts
  to. No sign check is made: for an admin session and a form with a name and a price that
  converts to \<open>r\<close>, the product is stored with price \<open>r\<close>, so the stored price is
  non-negative exactly when the submitted number is.
\<close>

theorem add_product_price_unchecked:
  "(product_table (new_db (admin_add_product to_float to_int utcnow db sess method frm)) \<noteq>
      product_table db \<longrightarrow>
      (\<exists>ptxt r p. method = POST \<and> frm ''price'' = Some ptxt \<and> to_float ptxt = Some r \<and>
         product_table (new_db (admin_add_product to_float to_int utcnow db sess method frm)) =
           product_table db @ [p] \<and> price p = r))
   \<and> (\<forall>uid usr n ptxt r.
        user_id sess = Some uid \<and> find (\<lambda>u. u_id u = uid) (user_table db) = Some usr \<and>
        is_admin usr \<and> frm ''name'' = Some n \<and> frm ''price'' = Some ptxt \<and>
        to_float ptxt = Some r \<and> frm ''category_id'' = None \<longrightarrow>
        (\<exists>p. product_table (new_db (admin_add_product to_float to_int utcnow db sess POST frm)) =
               product_table db @ [p] \<and> price p = r \<and> (0 \<le> price p \<longleftrightarrow> 0 \<le> r)))
   \<and> product_table (new_db (index db sess)) = product_table db
   \<and> product_table (new_db (products db sess cat_arg page_arg)) = product_table db
   \<and> product_table (new_db (product_detail db sess product_id)) = product_table db
   \<and> product_table (new_db (login check_pw utcnow db sess method frm)) = product_table db
   \<and> product_table (new_db (register gen_hash utcnow db sess method frm)) = product_table db
   \<and> product_table (new_db (logout db sess)) = product_table db
   \<and> product_table (new_db (admin_dashboard db sess)) = product_table db
   \<and> product_table (new_db (admin_products db sess)) = product_table db"
proof -
  have a: "\<exists>ptxt r p. method = POST \<and> frm ''price'' = Some ptxt \<and> to_float ptxt = Some r \<and>
         product_table (new_db (admin_add_product to_float to_int utcnow db sess method frm)) =
           product_table db @ [p] \<and> price p = r"
    if "product_table (new_db (admin_add_product to_float to_int utcnow db sess method frm)) \<noteq>
      product_table db"
  proof -
    from that have "new_db (admin_add_product to_float to_int utcnow db sess method frm) \<noteq> db"
      by auto
    from admin_add_product_redirect [OF admin_add_product_new_db [OF this]]
    have post: "method = POST"
      and ins: "insert_product to_float to_int utcnow db (frm ''name'') (frm ''description'')
             (frm ''price'') (frm ''category_id'')
             (case frm ''is_active'' of None \<Rightarrow> False | Some s \<Rightarrow> s \<noteq> []) =
        Some (new_db (admin_add_product to_float to_int utcnow db sess method frm))"
      by blast+
    from ins [unfolded insert_product_Some] post show ?thesis
      by auto
  qed
  have b: "\<exists>p. product_table (new_db (admin_add_product to_float to_int utcnow db sess POST frm)) =
               product_table db @ [p] \<and> price p = r \<and> (0 \<le> price p \<longleftrightarrow> 0 \<le> r)"
    if "user_id sess = Some uid" "find (\<lambda>u. u_id u = uid) (user_table db) = Some usr"
      "is_admin usr" "frm ''name'' = Some n" "frm ''price'' = Some ptxt"
      "to_float ptxt = Some r" "frm ''category_id'' = None" for uid usr n ptxt r
    unfolding admin_add_product_admin [OF that(1-3)]
    using that(4-7) by (simp add: insert_product_def)
  have A: "product_table (new_db (admin_add_product to_float to_int utcnow db sess method frm)) \<noteq>
      product_table db \<longrightarrow>
      (\<exists>ptxt r p. method = POST \<and> frm ''price'' = Some ptxt \<and> to_float ptxt = Some r \<and>
         product_table (new_db (admin_add_product to_float to_int utcnow db sess method frm)) =
           product_table db @ [p] \<and> price p = r)"
    using a by (rule impI)
  have B: "\<forall>uid usr n ptxt r.
        user_id sess = Some uid \<and> find (\<lambda>u. u_id u = uid) (user_table db) = Some usr \<and>
        is_admin usr \<and> frm ''name'' = Some n \<and> frm ''price'' = Some ptxt \<and>
        to_float ptxt = Some r \<and> frm ''category_id'' = None \<longrightarrow>
        (\<exists>p. product_table (new_db (admin_add_product to_float to_int utcnow db sess POST frm)) =
               product_table db @ [p] \<and> price p = r \<and> (0 \<le> price p \<longleftrightarrow> 0 \<le> r))"
    by (intro allI impI, elim conjE, rule b)
  show ?thesis
    by (intro conjI A B other_handlers_keep_products)
qed

theorem add_product_price_unchecked_witness:
  "product_table (new_db
      (admin_add_product (\<lambda>s. if s = ''-5'' then Some (- 5) else None) (\<lambda>s. None) 7 shop
         admin_session POST [''name'' \<mapsto> ''card e'', ''price'' \<mapsto> ''-5''])) =
     product_table shop @ [card_e]
   \<and> price card_e = - 5
   \<and> product_table shop @ [card_e] \<noteq> product_table shop"
proof -
  let ?out = "admin_add_product (\<lambda>s. if s = ''-5'' then Some (- 5) else None) (\<lambda>s. None) 7
     shop admin_session POST [''name'' \<mapsto> ''card e'', ''price'' \<mapsto> ''-5'']"
  have changed: "product_table (new_db ?out) \<noteq> product_table shop"
    by (simp add: add_card_e)
  from add_product_price_unchecked [of "\<lambda>s. if s = ''-5'' then Some (- 5) else None"
      "\<lambda>s. None" 7 shop admin_session POST "[''name'' \<mapsto> ''card e'', ''price'' \<mapsto> ''-5'']"]
  have "product_table (new_db ?out) \<noteq> product_table shop \<longrightarrow>
      (\<exists>ptxt r p. POST = POST \<and>
         [''name'' \<mapsto> ''card e'', ''price'' \<mapsto> ''-5''] ''price'' = Some ptxt \<and>
         (if ptxt = ''-5'' then Some (- 5) else None) = Some r \<and>
         product_table (new_db ?out) = product_table shop @ [p] \<and> price p = r)"
    by (rule conjunct1)
  with changed obtain p where "product_table (new_db ?out) = product_table shop @ [p]"
    "price p = - 5"
    by (auto split: if_splits)
  then show ?thesis by (simp add: add_card_e)
qed


text \<open>
  The claim as first stated (C4) requires every stored price to be non-negative; an
  admin who submits the price \<^verbatim>\<open>-5\<close> stores a product with price \<open>- 5\<close>.
\<close>

theorem add_product_negative_price_counterexample:
  "\<not> (\<forall>p \<in> set (product_table (new_db
         (admin_add_product (\<lambda>s. if s = ''-5'' then Some (- 5) else None) (\<lambda>s. None) 7 shop
            admin_session POST [''name'' \<mapsto> ''card e'', ''price'' \<mapsto> ''-5'']))).
        0 \<le> price p)"
  by (simp add: add_card_e card_e_def)


text \<open>
  Claim C6. Whenever \<^verbatim>\<open>admin_products\<close> renders its listing, the list is the whole
  product table, active or not, and it renders it for every session whose \<^verbatim>\<open>user_id\<close>
  resolves to an admin. When \<^verbatim>\<open>admin_add_product\<close> has added a product (it answered with
  the redirect to the listing), the product table is the old one followed by the new
  product, which carries the submitted name and is active exactly when the form's
  \<^verbatim>\<open>is_active\<close> field was sent and is not empty; the listing for the session after the
  request shows all of them, the new product included, whatever its flag. An admin's POST
  with a name and a convertible price does add the product.
\<close>

theorem admin_products_lists_all:
  "(\<forall>ps. resp (admin_products db sess) = Render_template (Admin_products_html ps) \<longrightarrow>
        ps = product_table db)
   \<and> (\<forall>uid usr. user_id sess = Some uid \<and>
         find (\<lambda>u. u_id u = uid) (user_table db) = Some usr \<and> is_admin usr \<longrightarrow>
         admin_products db sess =
           \<lparr>new_db = db, new_session = sess, flashed = [],
            resp = Render_template (Admin_products_html (product_table db))\<rparr>)
   \<and> (resp (admin_add_product to_float to_int utcnow db sess method frm) =
         Redirect ''admin_products'' \<longrightarrow>
       (\<exists>p. product_table (new_db (admin_add_product to_float to_int utcnow db sess method frm)) =
              product_table db @ [p]
          \<and> Some (p_name p) = frm ''name''
          \<and> is_active p = (frm ''is_active'' \<noteq> None \<and> frm ''is_active'' \<noteq> Some [])
          \<and> resp (admin_products
                    (new_db (admin_add_product to_float to_int utcnow db sess method frm))
                    (new_session (admin_add_product to_float to_int utcnow db sess method frm))) =
              Render_template (Admin_products_html (product_table db @ [p]))))
   \<and> (\<forall>uid usr n ptxt r. user_id sess = Some uid \<and>
         find (\<lambda>u. u_id u = uid) (user_table db) = Some usr \<and> is_admin usr \<and>
         frm ''name'' = Some n \<and> frm ''price'' = Some ptxt \<and> to_float ptxt = Some r \<and>
         frm ''category_id'' = None \<longrightarrow>
         resp (admin_add_product to_float to_int utcnow db sess POST frm) =
           Redirect ''admin_products'')"
proof -
  have A: "\<forall>ps. resp (admin_products db sess) = Render_template (Admin_products_html ps) \<longrightarrow>
        ps = product_table db"
    using admin_products_listing by blast
  have B: "\<forall>uid usr. user_id sess = Some uid \<and>
         find (\<lambda>u. u_id u = uid) (user_table db) = Some usr \<and> is_admin usr \<longrightarrow>
         admin_products db sess =
           \<lparr>new_db = db, new_session = sess, flashed = [],
            resp = Render_template (Admin_products_html (product_table db))\<rparr>"
    by (intro allI impI, elim conjE, rule admin_products_admin)
  have C: "\<exists>p. product_table (new_db (admin_add_product to_float to_int utcnow db sess method frm)) =
              product_table db @ [p]
          \<and> Some (p_name p) = frm ''name''
          \<and> is_active p = (frm ''is_active'' \<noteq> None \<and> frm ''is_active'' \<noteq> Some [])
          \<and> resp (admin_products
                    (new_db (admin_add_product to_float to_int utcnow db sess method frm))
                    (new_session (admin_add_product to_float to_int utcnow db sess method frm))) =
              Render_template (Admin_products_html (product_table db @ [p]))"
    if r: "resp (admin_add_product to_float to_int utcnow db sess method frm) =
         Redirect ''admin_products''"
  proof -
    define db' where "db' = new_db (admin_add_product to_float to_int utcnow db sess method frm)"
    define act where
      "act = (case frm ''is_active'' of None \<Rightarrow> False | Some s \<Rightarrow> s \<noteq> [])"
    from admin_add_product_redirect [OF r]
    have ins: "insert_product to_float to_int utcnow db (frm ''name'') (frm ''description'')
             (frm ''price'') (frm ''category_id'') act = Some db'"
      and sess': "new_session (admin_add_product to_float to_int utcnow db sess method frm) = sess"
      and adm: "\<exists>uid usr. user_id sess = Some uid \<and>
          find (\<lambda>u. u_id u = uid) (user_table db) = Some usr \<and> is_admin usr"
      unfolding db'_def act_def by blast+
    from ins [unfolded insert_product_Some] obtain n r c where
      n: "frm ''name'' = Some n"
      and eq: "db' = db\<lparr>product_table := product_table db @
                [\<lparr>p_id = next_id (map p_id (product_table db)), p_name = n,
                  p_description = frm ''description'', price = r, file_path = None,
                  thumbnail = None, category_id = c, is_active = act,
                  p_created_at = utcnow\<rparr>]\<rparr>"
      by blast
    define p where "p = \<lparr>p_id = next_id (map p_id (product_table db)), p_name = n,
                  p_description = frm ''description'', price = r, file_path = None,
                  thumbnail = None, category_id = c, is_active = act,
                  p_created_at = utcnow\<rparr>"
    have tab: "product_table db' = product_table db @ [p]"
      and users: "user_table db' = user_table db"
      by (simp_all add: eq p_def)
    from adm obtain uid usr where "user_id sess = Some uid"
      "find (\<lambda>u. u_id u = uid) (user_table db') = Some usr" "is_admin usr"
      unfolding users by blast
    from admin_products_admin [OF this]
    have list: "resp (admin_products db' sess) =
        Render_template (Admin_products_html (product_table db @ [p]))"
      by (simp add: tab)
    have nm: "Some (p_name p) = frm ''name''"
      by (simp add: p_def n)
    have flag: "is_active p = (frm ''is_active'' \<noteq> None \<and> frm ''is_active'' \<noteq> Some [])"
      by (cases "frm ''is_active''") (simp_all add: p_def act_def)
    from tab nm flag list show ?thesis
      unfolding sess' db'_def by blast
  qed
  have D: "\<forall>uid usr n ptxt r. user_id sess = Some uid \<and>
         find (\<lambda>u. u_id u = uid) (user_table db) = Some usr \<and> is_admin usr \<and>
         frm ''name'' = Some n \<and> frm ''price'' = Some ptxt \<and> to_float ptxt = Some r \<and>
         frm ''category_id'' = None \<longrightarrow>
         resp (admin_add_product to_float to_int utcnow db sess POST frm) =
           Redirect ''admin_products''"
  proof (intro allI impI, elim conjE)
    fix uid usr n ptxt r
    assume a: "user_id sess = Some uid" "find (\<lambda>u. u_id u = uid) (user_table db) = Some usr"
      "is_admin usr"
      and f: "frm ''name'' = Some n" "frm ''price'' = Some ptxt" "to_float ptxt = Some r"
        "frm ''category_id'' = None"
    show "resp (admin_add_product to_float to_int utcnow db sess POST frm) =
           Redirect ''admin_products''"
      unfolding admin_add_product_admin [OF a] using f by (simp add: insert_product_def)
  qed
  from C have C': "resp (admin_add_product to_float to_int utcnow db sess method frm) =
         Redirect ''admin_products'' \<longrightarrow>
       (\<exists>p. product_table (new_db (admin_add_product to_float to_int utcnow db sess method frm)) =
              product_table db @ [p]
          \<and> Some (p_name p) = frm ''name''
          \<and> is_active p = (frm ''is_active'' \<noteq> None \<and> frm ''is_active'' \<noteq> Some [])
          \<and> resp (admin_products
                    (new_db (admin_add_product to_float to_int utcnow db sess method frm))
                    (new_session (admin_add_product to_float to_int utcnow db sess method frm))) =
              Render_template (Admin_products_html (product_table db @ [p])))"
    by (rule impI)
  show ?thesis by (intro conjI A B C' D)
qed


theorem admin_products_lists_all_witness:
  "resp (admin_add_product (\<lambda>s. if s = ''-5'' then Some (- 5) else None) (\<lambda>s. None) 7 shop
     admin_session POST [''name'' \<mapsto> ''card e'', ''price'' \<mapsto> ''-5'']) =
     Redirect ''admin_products''
   \<and> resp (admin_products (shop\<lparr>product_table := product_table shop @ [card_e]\<rparr>) admin_session) =
       Render_template (Admin_products_html [card_a, card_b, card_c, card_d, card_e])
   \<and> is_active card_e = False \<and> is_active card_b = False"
proof -
  let ?out = "admin_add_product (\<lambda>s. if s = ''-5'' then Some (- 5) else None) (\<lambda>s. None) 7
     shop admin_session POST [''name'' \<mapsto> ''card e'', ''price'' \<mapsto> ''-5'']"
  have ok: "resp ?out = Redirect ''admin_products''"
    by (simp add: add_card_e)
  from admin_products_lists_all [of shop admin_session
      "\<lambda>s. if s = ''-5'' then Some (- 5) else None" "\<lambda>s. None" 7 POST
      "[''name'' \<mapsto> ''card e'', ''price'' \<mapsto> ''-5'']"]
  have "resp ?out = Redirect ''admin_products'' \<longrightarrow>
       (\<exists>p. product_table (new_db ?out) = product_table shop @ [p]
          \<and> Some (p_name p) = [''name'' \<mapsto> ''card e'', ''price'' \<mapsto> ''-5''] ''name''
          \<and> is_active p = ([''name'' \<mapsto> ''card e'', ''price'' \<mapsto> ''-5''] ''is_active'' \<noteq> None \<and>
                           [''name'' \<mapsto> ''card e'', ''price'' \<mapsto> ''-5''] ''is_active'' \<noteq> Some [])
          \<and> resp (admin_products (new_db ?out) (new_session ?out)) =
              Render_template (Admin_products_html (product_table shop @ [p])))"
    by (rule conjunct1 [OF conjunct2 [OF conjunct2]])
  with ok obtain p where p: "product_table (new_db ?out) = product_table shop @ [p]"
    and l: "resp (admin_products (new_db ?out) (new_session ?out)) =
              Render_template (Admin_products_html (product_table shop @ [p]))"
    by blast
  from p have "p = card_e" by (simp add: add_card_e)
  with l have "resp (admin_products (shop\<lparr>product_table := product_table shop @ [card_e]\<rparr>)
      admin_session) = Render_template (Admin_products_html (product_table shop @ [card_e]))"
    by (simp add: add_card_e)
  then have "resp (admin_products (shop\<lparr>product_table := product_table shop @ [card_e]\<rparr>)
      admin_session) = Render_template (Admin_products_html [card_a, card_b, card_c, card_d, card_e])"
    by (simp add: shop_def)
  with ok show ?thesis by (simp add: card_e_def card_b_def)
qed

subsection \<open>The schema's constraints are kept\<close>

lemma fold_max_ge: "(a::int) \<le> fold max ids a"
  by (induction ids arbitrary: a) (auto intro: order_trans [OF max.cobounded2])

lemma fold_max_upper: "(x::int) \<in> set ids \<Longrightarrow> x \<le> fold max ids a"
proof (induction ids arbitrary: a)
  case Nil
  then show ?case by simp
next
  case (Cons y ys)
  show ?case
  proof (cases "x = y")
    case True
    have "x \<le> max x a" by simp
    also have "\<dots> \<le> fold max ys (max x a)" by (rule fold_max_ge)
    finally show ?thesis using True by simp
  next
    case False
    with Cons.prems have "x \<in> set ys" by simp
    from Cons.IH [OF this] show ?thesis by simp
  qed
qed

lemma next_id_fresh: "next_id ids \<notin> set ids"
proof
  assume "next_id ids \<in> set ids"
  from fold_max_upper [OF this, of 0] show False by (simp add: next_id_def)
qed

lemma insert_user_schema:
  assumes ok: "schema_ok db"
    and ins: "insert_user utcnow db un em pwhash fname lname = Some db'"
  shows "schema_ok db'"
proof -
  from ins obtain u e h where
    new: "u \<notin> set (map username (user_table db))" "e \<notin> set (map email (user_table db))"
    and eq: "db' = db\<lparr>user_table := user_table db @
                 [\<lparr>u_id = next_id (map u_id (user_table db)), username = u, email = e,
                   password = h, first_name = fname, last_name = lname, is_admin = False,
                   loyalty_points = 0, u_created_at = utcnow, last_login = None\<rparr>]\<rparr>"
    by (auto simp: insert_user_def split: option.splits if_splits)
  from ok new next_id_fresh [of "map u_id (user_table db)"] show ?thesis
    unfolding eq schema_ok_def by simp
qed

lemma insert_product_schema:
  assumes ok: "schema_ok db"
    and ins: "insert_product to_float to_int utcnow db nm descr pr cat act = Some db'"
  shows "schema_ok db'"
proof -
  from ins obtain n r c where
    eq: "db' = db\<lparr>product_table := product_table db @
                [\<lparr>p_id = next_id (map p_id (product_table db)), p_name = n,
                  p_description = descr, price = r, file_path = None, thumbnail = None,
                  category_id = c, is_active = act, p_created_at = utcnow\<rparr>]\<rparr>"
    by (auto simp: insert_product_def split: option.splits)
  from ok next_id_fresh [of "map p_id (product_table db)"] show ?thesis
    unfolding eq schema_ok_def by simp
qed

lemma touch_last_login_columns:
  "u_id \<circ> (\<lambda>v. if u_id v = k then v\<lparr>last_login := t\<rparr> else v) = u_id"
  "username \<circ> (\<lambda>v. if u_id v = k then v\<lparr>last_login := t\<rparr> else v) = username"
  "email \<circ> (\<lambda>v. if u_id v = k then v\<lparr>last_login := t\<rparr> else v) = email"
  by (auto simp: fun_eq_iff)

lemma login_schema: "schema_ok db \<Longrightarrow> schema_ok (new_db (login check_pw utcnow db sess method frm))"
  by (simp add: login_def Let_def server_error_def schema_ok_def touch_last_login_columns
      split: option.split bool.split)

lemma register_schema:
  assumes "schema_ok db"
  shows "schema_ok (new_db (register gen_hash utcnow db sess method frm))"
proof (cases "\<exists>db'. resp (register gen_hash utcnow db sess method frm) = Redirect ''login'' \<and>
    insert_user utcnow db (frm ''username'') (frm ''email'') (gen_hash (frm ''password''))
      (frm ''first_name'') (frm ''last_name'') = Some db' \<and>
    new_db (register gen_hash utcnow db sess method frm) = db'")
  case True
  with insert_user_schema [OF assms] show ?thesis by auto
next
  case False
  then have "new_db (register gen_hash utcnow db sess method frm) = db"
    by (auto simp: register_def Let_def server_error_def split: option.splits if_splits)
  with assms show ?thesis by simp
qed

lemma admin_add_product_schema:
  assumes "schema_ok db"
  shows "schema_ok (new_db (admin_add_product to_float to_int utcnow db sess method frm))"
proof (cases "\<exists>db'. insert_product to_float to_int utcnow db (frm ''name'') (frm ''description'')
             (frm ''price'') (frm ''category_id'')
             (case frm ''is_active'' of None \<Rightarrow> False | Some s \<Rightarrow> s \<noteq> []) = Some db' \<and>
     new_db (admin_add_product to_float to_int utcnow db sess method frm) = db'")
  case True
  with insert_product_schema [OF assms] show ?thesis by auto
next
  case False
  then have "new_db (admin_add_product to_float to_int utcnow db sess method frm) = db"
    by (auto simp: admin_add_product_def Let_def server_error_def split: option.splits if_splits)
  with assms show ?thesis by simp
qed


text \<open>
  Every handler leaves a database that satisfies the key constraints of the schema in
  a state that satisfies them: the rows that \<^verbatim>\<open>register\<close> and \<^verbatim>\<open>admin_add_product\<close> add
  get a fresh id, \<^verbatim>\<open>register\<close> adds no second row with a username or an email already
  there, and \<^verbatim>\<open>login\<close> changes \<^verbatim>\<open>last_login\<close> only.
\<close>

theorem schema_constraints_preserved:
  assumes "schema_ok db"
  shows "schema_ok (new_db (index db sess))
    \<and> schema_ok (new_db (products db sess cat_arg page_arg))
    \<and> schema_ok (new_db (product_detail db sess product_id))
    \<and> schema_ok (new_db (login check_pw utcnow db sess method frm))
    \<and> schema_ok (new_db (register gen_hash utcnow db sess method frm))
    \<and> schema_ok (new_db (logout db sess))
    \<and> schema_ok (new_db (admin_dashboard db sess))
    \<and> schema_ok (new_db (admin_products db sess))
    \<and> schema_ok (new_db (admin_add_product to_float to_int utcnow db sess method frm))"
proof -
  have "new_db (index db sess) = db" by (simp add: index_def)
  moreover have "new_db (products db sess cat_arg page_arg) = db"
    by (rule products_keeps_db)
  moreover have "new_db (product_detail db sess product_id) = db"
    by (rule product_detail_keeps_db)
  moreover have "new_db (logout db sess) = db" by (simp add: logout_def)
  moreover have "new_db (admin_dashboard db sess) = db"
    by (simp add: admin_dashboard_def split: option.split)
  moreover have "new_db (admin_products db sess) = db"
    by (simp add: admin_products_def split: option.split)
  ultimately show ?thesis
    using assms login_schema [OF assms] register_schema [OF assms]
      admin_add_product_schema [OF assms]
    by simp
qed


theorem schema_constraints_preserved_witness:
  "schema_ok shop
   \<and> schema_ok (new_db (register (generate_password_hash known_method ''scrypt'' ''s2'') 7 shop anonymous POST
        [''username'' \<mapsto> ''bob'', ''email'' \<mapsto> ''b@x.com'', ''password'' \<mapsto> ''pw2'',
         ''confirm_password'' \<mapsto> ''pw2'']))
   \<and> length (user_table (new_db (register (generate_password_hash known_method ''scrypt'' ''s2'') 7 shop anonymous POST
        [''username'' \<mapsto> ''bob'', ''email'' \<mapsto> ''b@x.com'', ''password'' \<mapsto> ''pw2'',
         ''confirm_password'' \<mapsto> ''pw2'']))) = 3"
proof -
  have ok: "schema_ok shop"
    by (simp add: schema_ok_def shop_defs)
  have three: "length (user_table (new_db (register (generate_password_hash known_method ''scrypt'' ''s2'') 7 shop anonymous POST
        [''username'' \<mapsto> ''bob'', ''email'' \<mapsto> ''b@x.com'', ''password'' \<mapsto> ''pw2'',
         ''confirm_password'' \<mapsto> ''pw2'']))) = 3"
    by (simp add: register_def insert_user_def generate_password_hash_def digest_def known_method_def shop_defs)
  from schema_constraints_preserved [OF ok, of anonymous None 1 1 "check_password_hash known_method" 7 POST
      "[''username'' \<mapsto> ''bob'', ''email'' \<mapsto> ''b@x.com'', ''password'' \<mapsto> ''pw2'',
         ''confirm_password'' \<mapsto> ''pw2'']" "generate_password_hash known_method ''scrypt'' ''s2''" "\<lambda>s. None" "\<lambda>s. None"]
  have "schema_ok (new_db (register (generate_password_hash known_method ''scrypt'' ''s2'') 7 shop anonymous POST
        [''username'' \<mapsto> ''bob'', ''email'' \<mapsto> ''b@x.com'', ''password'' \<mapsto> ''pw2'',
         ''confirm_password'' \<mapsto> ''pw2'']))"
    by (rule conjunct1 [OF conjunct2 [OF conjunct2 [OF conjunct2 [OF conjunct2]]]])
  with ok three show ?thesis by (intro conjI)
qed

subsection \<open>Logout\<close>

text \<open>
  \<^verbatim>\<open>logout\<close> removes \<^verbatim>\<open>user_id\<close> and \<^verbatim>\<open>cart\<close> from the session, leaves the database as it
  is and redirects to the home page; with the session it leaves, each admin route
  redirects to the login page.
\<close>

theorem logout_clears_session:
  "new_session (logout db sess) = \<lparr>user_id = None, cart = None\<rparr>
   \<and> new_db (logout db sess) = db
   \<and> resp (logout db sess) = Redirect ''index''
   \<and> resp (admin_dashboard db' (new_session (logout db sess))) = Redirect ''login''
   \<and> resp (admin_products db' (new_session (logout db sess))) = Redirect ''login''
   \<and> resp (admin_add_product to_float to_int utcnow db' (new_session (logout db sess)) method frm) =
       Redirect ''login''"
  by (simp add: logout_def admin_dashboard_def admin_products_def admin_add_product_def)

end
